theory Spec2Isabelle
  imports Complex_Main
begin

section \<open>Python values, errors and text\<close>

text \<open>
  The values that reach the driver's numeric parameters: \<open>None\<close>, an \<open>int\<close>, a
  \<open>float\<close> or a \<open>str\<close>. A Python float is idealised as the exact rational it
  denotes, so the arithmetic of the model has no binary rounding error.
\<close>

datatype pyval = VNone | VInt int | VFloat rat | VStr string

text \<open>Truthiness, as \<open>not\<close>, \<open>or\<close> and \<open>if\<close> read a value.\<close>

fun truthy :: "pyval \<Rightarrow> bool" where
  "truthy VNone = False"
| "truthy (VInt i) = (i \<noteq> 0)"
| "truthy (VFloat r) = (r \<noteq> 0)"
| "truthy (VStr s) = (s \<noteq> [])"

text \<open>\<open>isinstance(v, (int, float))\<close>.\<close>

fun is_numeric :: "pyval \<Rightarrow> bool" where
  "is_numeric (VInt i) = True"
| "is_numeric (VFloat r) = True"
| "is_numeric v = False"

text \<open>
  \<open>round(v, 3)\<close>: an \<open>int\<close> is returned as it is, a float is rounded to the nearest
  multiple of \<open>1/1000\<close>, a tie going to the even neighbour.
\<close>

definition round_half_even :: "rat \<Rightarrow> int" where
  "round_half_even r =
     (let f = \<lfloor>r\<rfloor>; d = r - of_int f
      in if d < 1 / 2 then f
         else if 1 / 2 < d then f + 1
         else if even f then f else f + 1)"

definition round3 :: "rat \<Rightarrow> rat" where
  "round3 r = of_int (round_half_even (r * 1000)) / 1000"

fun py_round3 :: "pyval \<Rightarrow> pyval" where
  "py_round3 (VFloat r) = VFloat (round3 r)"
| "py_round3 v = v"

text \<open>
  Text built by an f-string or by \<open>+\<close>: literal fragments and interpolated values, in
  order. An interpolated value stays a value, so what was formatted can be read back.
\<close>

datatype piece = Txt string | Val pyval

datatype error =
    ValueError "piece list"
  | TypeError "piece list"
  | RuntimeError "piece list"
  | TimeoutError "piece list"
  | UnboundLocalError string
  | IndexError
  | VisaIOError
  | RecursionError

subsection \<open>String helpers of the Python library\<close>

definition is_space :: "char \<Rightarrow> bool" where
  "is_space c = (c \<in> set [CHR '' '', CHR 0x09, CHR 0x0A, CHR 0x0B, CHR 0x0C, CHR 0x0D])"

definition strip :: "string \<Rightarrow> string" where
  "strip s = rev (dropWhile is_space (rev (dropWhile is_space s)))"

text \<open>\<open>s.split()\<close>: the maximal runs of non-blank characters.\<close>

fun split_acc :: "string \<Rightarrow> string \<Rightarrow> string list" where
  "split_acc [] cur = (if cur = [] then [] else [cur])"
| "split_acc (c # cs) cur =
     (if is_space c then (if cur = [] then split_acc cs [] else cur # split_acc cs [])
      else split_acc cs (cur @ [c]))"

definition split :: "string \<Rightarrow> string list" where
  "split s = split_acc s []"

text \<open>\<open>sub in s\<close> for strings.\<close>

fun starts_with :: "string \<Rightarrow> string \<Rightarrow> bool" where
  "starts_with [] s = True"
| "starts_with (a # as) [] = False"
| "starts_with (a # as) (c # cs) = (a = c \<and> starts_with as cs)"

fun contains :: "string \<Rightarrow> string \<Rightarrow> bool" where
  "contains sub [] = (sub = [])"
| "contains sub (c # cs) = (starts_with sub (c # cs) \<or> contains sub cs)"

text \<open>
  \<open>float(s)\<close> is a parameter \<open>pf\<close> of the driver's parsing operations: \<open>None\<close> where
  Python raises \<open>ValueError\<close>. \<open>dec_float\<close> is the instance used on concrete replies;
  it reads an optional sign, digits and an optional fraction.
\<close>

definition is_digit :: "char \<Rightarrow> bool" where
  "is_digit c = (c \<in> set ''0123456789'')"

fun digits_val :: "nat \<Rightarrow> string \<Rightarrow> nat" where
  "digits_val acc [] = acc"
| "digits_val acc (c # cs) = digits_val (10 * acc + (of_char c - 48)) cs"

definition dec_float :: "string \<Rightarrow> rat option" where
  "dec_float s =
     (let t = strip s;
          neg = (t \<noteq> [] \<and> hd t = CHR ''-'');
          body = (if t \<noteq> [] \<and> (hd t = CHR ''-'' \<or> hd t = CHR ''+'') then tl t else t);
          ip = takeWhile (\<lambda>c. c \<noteq> CHR ''.'') body;
          fp = drop 1 (dropWhile (\<lambda>c. c \<noteq> CHR ''.'') body)
      in if (ip = [] \<and> fp = []) \<or> \<not> list_all is_digit ip \<or> \<not> list_all is_digit fp then None
         else let m = of_nat (digits_val 0 ip) + of_nat (digits_val 0 fp) / 10 ^ length fp
              in Some (if neg then - m else m))"

fun floats :: "(string \<Rightarrow> rat option) \<Rightarrow> string list \<Rightarrow> error + rat list" where
  "floats pf [] = Inr []"
| "floats pf (t # ts) =
     (case pf t of
        None \<Rightarrow> Inl (ValueError [Txt ''could not convert string to float: '', Val (VStr t)])
      | Some v \<Rightarrow> (case floats pf ts of Inl e \<Rightarrow> Inl e | Inr vs \<Rightarrow> Inr (v # vs)))"

section \<open>The serial link\<close>

text \<open>
  The VISA device is a script: the replies it will give, in order, and a chronological
  log of what the program did to the outside world (commands written, pauses). A query
  on an exhausted script fails as a transport time-out does.
\<close>

datatype event = Sent "piece list" | Slept rat

record link =
  replies :: "string list"
  log :: "event list"

definition query :: "piece list \<Rightarrow> link \<Rightarrow> (error + string) \<times> link" where
  "query instruction p =
     (case replies p of
        [] \<Rightarrow> (Inl VisaIOError, p\<lparr>log := log p @ [Sent instruction]\<rparr>)
      | r # rs \<Rightarrow> (Inr r, p\<lparr>replies := rs, log := log p @ [Sent instruction]\<rparr>))"

section \<open>The protocol driver (class MS2000)\<close>

subsection \<open>Connection\<close>

text \<open>
  What the resource manager offers: each resource with the outcome of opening it and
  asking \<open>WHO\<close>.
\<close>

datatype probe = OpenFails | QueryFails | Answers string

text \<open>
  The probing loop of \<open>__init__\<close>, on the variables it assigns: \<open>found\<close>,
  \<open>resourceName\<close> and \<open>idn\<close> (unbound until a query has answered). The bare
  \<open>except\<close> continues with the next resource. The condition under which an
  answering resource is taken is the source's literal \<open>True\<close>.
\<close>

definition probe_condition :: "string \<Rightarrow> bool" where
  "probe_condition idn = True"

fun probe_loop ::
  "(string \<times> probe) list \<Rightarrow> string option \<Rightarrow> bool \<times> string option \<times> string option" where
  "probe_loop [] idn = (False, None, idn)"
| "probe_loop ((resource, OpenFails) # rest) idn = probe_loop rest idn"
| "probe_loop ((resource, QueryFails) # rest) idn = probe_loop rest idn"
| "probe_loop ((resource, Answers a) # rest) idn =
     (if probe_condition a then (True, Some resource, Some a) else probe_loop rest (Some a))"

definition MS2000_init :: "string option \<Rightarrow> (string \<times> probe) list \<Rightarrow> error + string" where
  "MS2000_init resourceName rm =
     (case resourceName of
        None \<Rightarrow>
          (case probe_loop rm None of
             (found, name, idn) \<Rightarrow>
               if \<not> found then
                 (case idn of
                    None \<Rightarrow> Inl (UnboundLocalError ''idn'')
                  | Some a \<Rightarrow> Inl (RuntimeError [Txt ''Instrument not found, idn = '', Val (VStr a)]))
               else (case name of Some n \<Rightarrow> Inr n | None \<Rightarrow> Inl (UnboundLocalError ''resourceName'')))
      | Some n \<Rightarrow>
          (case map_of rm n of
             Some (Answers a) \<Rightarrow>
               if \<not> contains ''ASI-MS2000'' a
               then Inl (ValueError [Txt ''Not an ASI MS2000 stage controller.''])
               else Inr n
           | Some OpenFails \<Rightarrow> Inl VisaIOError
           | Some QueryFails \<Rightarrow> Inl VisaIOError
           | None \<Rightarrow> Inl (ValueError [Txt ''Instrument address not found,,''])))"

subsection \<open>Status, limits and position\<close>

definition status :: "link \<Rightarrow> (error + bool) \<times> link" where
  "status p =
     (case query [Txt ''STATUS''] p of
        (Inl e, p') \<Rightarrow> (Inl e, p')
      | (Inr r, p') \<Rightarrow> (Inr (\<not> contains ''B'' (strip r)), p'))"

definition axes_suffix :: "string \<Rightarrow> string \<Rightarrow> string \<Rightarrow> bool \<Rightarrow> bool \<Rightarrow> bool \<Rightarrow> piece list" where
  "axes_suffix sx sy sz x y z =
     (if x then [Txt sx] else []) @ (if y then [Txt sy] else []) @ (if z then [Txt sz] else [])"

definition limits ::
  "(string \<Rightarrow> rat option) \<Rightarrow> bool \<Rightarrow> bool \<Rightarrow> bool \<Rightarrow> link \<Rightarrow> (error + (rat \<times> rat) list) \<times> link" where
  "limits pf x y z p =
     (if \<not> (x \<or> y \<or> z) then (Inl (ValueError [Txt ''Must specify at least one axis'']), p)
      else
        case query (Txt ''SETLOW'' # axes_suffix '' X?'' '' Y?'' '' Z?'' x y z) p of
          (Inl e, p1) \<Rightarrow> (Inl e, p1)
        | (Inr responsesLow, p1) \<Rightarrow>
            (case floats pf (map (drop 2) (tl (split responsesLow))) of
               Inl e \<Rightarrow> (Inl e, p1)
             | Inr lowerLims \<Rightarrow>
                 (case query (Txt ''SETUP'' # axes_suffix '' X?'' '' Y?'' '' Z?'' x y z) p1 of
                    (Inl e, p2) \<Rightarrow> (Inl e, p2)
                  | (Inr responsesHigh, p2) \<Rightarrow>
                      (case floats pf (map (drop 2) (tl (split responsesHigh))) of
                         Inl e \<Rightarrow> (Inl e, p2)
                       | Inr upperLims \<Rightarrow> (Inr (zip lowerLims upperLims), p2)))))"

text \<open>
  \<open>position\<close> calls itself, with its default arguments, when the number of coordinates
  differs from the number of axes asked for. The interpreter bounds the depth of calls:
  \<open>frames\<close> is the number of nested calls of \<open>position\<close> it still allows, and a call
  beyond them raises \<open>RecursionError\<close> before anything is sent.
\<close>

fun position ::
  "(string \<Rightarrow> rat option) \<Rightarrow> nat \<Rightarrow> bool \<Rightarrow> bool \<Rightarrow> bool \<Rightarrow> link
     \<Rightarrow> (error + rat list) \<times> link" where
  "position pf 0 x y z p = (Inl RecursionError, p)"
| "position pf (Suc frames) x y z p =
     (if \<not> (x \<or> y \<or> z) then (Inl (ValueError [Txt ''Must specify at least one axis'']), p)
      else
        case query (Txt ''WHERE'' # axes_suffix '' X'' '' Y'' '' Z'' x y z) p of
          (Inl e, p') \<Rightarrow> (Inl e, p')
        | (Inr r, p') \<Rightarrow>
            (case floats pf (tl (split r)) of
               Inl e \<Rightarrow> (Inl e, p')
             | Inr coords \<Rightarrow>
                 if length coords = of_bool x + of_bool y + of_bool z then (Inr coords, p')
                 else position pf frames True True True p'))"

subsection \<open>Limits, moves and speed\<close>

definition setLimit :: "string \<Rightarrow> pyval \<Rightarrow> pyval \<Rightarrow> link \<Rightarrow> (error + unit) \<times> link" where
  "setLimit axis lower upper p =
     (if axis \<notin> set [''X'', ''Y'', ''Z''] then (Inl (ValueError [Txt ''Axis must be X, Y or Z'']), p)
      else if \<not> (truthy lower \<or> truthy upper)
      then (Inl (ValueError [Txt ''Must specify at least an upper or lower limit'']), p)
      else
        case (if lower \<noteq> VNone then
                (if \<not> is_numeric lower
                 then (Inl (TypeError [Txt axis, Txt '' limit must be numeric type!'']), p)
                 else case query [Txt (''SETLOW '' @ axis @ ''=''), Val lower] p of
                        (Inl e, p1) \<Rightarrow> (Inl e, p1)
                      | (Inr r, p1) \<Rightarrow> (Inr (), p1))
              else (Inr (), p)) of
          (Inl e, p1) \<Rightarrow> (Inl e, p1)
        | (Inr u, p1) \<Rightarrow>
            (if upper \<noteq> VNone then
               (if \<not> is_numeric upper
                then (Inl (TypeError [Txt axis, Txt '' limit must be numeric type!'']), p1)
                else case query [Txt (''SETUP '' @ axis @ ''=''), Val upper] p1 of
                       (Inl e, p2) \<Rightarrow> (Inl e, p2)
                     | (Inr r, p2) \<Rightarrow> (Inr (), p2))
             else (Inr (), p1)))"

text \<open>
  The loop over \<open>zip(("X", "Y", "Z"), (x, y, z))\<close> that appends one field per given
  coordinate; \<open>move\<close> formats \<open>round(coord, 3)\<close>, \<open>speed\<close> formats \<open>coord\<close>.
\<close>

fun move_fields :: "piece list \<Rightarrow> (string \<times> pyval) list \<Rightarrow> error + piece list" where
  "move_fields instruction [] = Inr instruction"
| "move_fields instruction ((axis, coord) # rest) =
     (if coord \<noteq> VNone then
        (if \<not> is_numeric coord
         then Inl (TypeError [Txt axis, Txt '' coordinate must be numeric type!''])
         else move_fields (instruction @ [Txt ('' '' @ axis @ ''=''), Val (py_round3 coord)]) rest)
      else move_fields instruction rest)"

fun speed_fields :: "piece list \<Rightarrow> (string \<times> pyval) list \<Rightarrow> error + piece list" where
  "speed_fields instruction [] = Inr instruction"
| "speed_fields instruction ((axis, coord) # rest) =
     (if coord \<noteq> VNone then
        (if \<not> is_numeric coord
         then Inl (TypeError [Txt axis, Txt '' coordinate must be numeric type!''])
         else speed_fields (instruction @ [Txt ('' '' @ axis @ ''=''), Val coord]) rest)
      else speed_fields instruction rest)"

definition move :: "pyval \<Rightarrow> pyval \<Rightarrow> pyval \<Rightarrow> bool \<Rightarrow> link \<Rightarrow> (error + unit) \<times> link" where
  "move x y z relative p =
     (if \<not> (x \<noteq> VNone \<or> y \<noteq> VNone \<or> z \<noteq> VNone)
      then (Inl (ValueError [Txt ''Must specify at least one axis'']), p)
      else
        case move_fields [Txt (if \<not> relative then ''MOVE'' else ''MOVREL'')]
               [(''X'', x), (''Y'', y), (''Z'', z)] of
          Inl e \<Rightarrow> (Inl e, p)
        | Inr instruction \<Rightarrow>
            (case status p of
               (Inl e, p1) \<Rightarrow> (Inl e, p1)
             | (Inr idle, p1) \<Rightarrow>
                 if \<not> idle then (Inl (RuntimeError [Txt ''Device is busy moving!'']), p1)
                 else (case query instruction p1 of
                         (Inl e, p2) \<Rightarrow> (Inl e, p2)
                       | (Inr r, p2) \<Rightarrow> (Inr (), p2))))"

definition home :: "link \<Rightarrow> (error + unit) \<times> link" where
  "home p = move (VInt 0) (VInt 0) (VInt 0) False p"

definition speed :: "pyval \<Rightarrow> pyval \<Rightarrow> pyval \<Rightarrow> link \<Rightarrow> (error + unit) \<times> link" where
  "speed x y z p =
     (if \<not> (truthy x \<or> truthy y \<or> truthy z)
      then (Inl (ValueError [Txt ''Must specify at least one axis'']), p)
      else
        case speed_fields [Txt ''SPEED''] [(''X'', x), (''Y'', y), (''Z'', z)] of
          Inl e \<Rightarrow> (Inl e, p)
        | Inr instruction \<Rightarrow>
            (case status p of
               (Inl e, p1) \<Rightarrow> (Inl e, p1)
             | (Inr idle, p1) \<Rightarrow>
                 if \<not> idle then (Inl (RuntimeError [Txt ''Device is busy moving!'']), p1)
                 else (case query instruction p1 of
                         (Inl e, p2) \<Rightarrow> (Inl e, p2)
                       | (Inr r, p2) \<Rightarrow> (Inr (), p2))))"

section \<open>The stage facade (classes ASILinearMotor and MS2000Stage)\<close>

text \<open>
  The facade reaches the driver through \<open>self._controller._stage\<close> and uses five of its
  methods. Any object with these methods will do, so the facade is defined over a record
  of them; \<open>ms2000\<close> is the driver above.
\<close>

record driver =
  d_status :: "link \<Rightarrow> (error + bool) \<times> link"
  d_limits :: "bool \<Rightarrow> bool \<Rightarrow> bool \<Rightarrow> link \<Rightarrow> (error + (rat \<times> rat) list) \<times> link"
  d_position :: "bool \<Rightarrow> bool \<Rightarrow> bool \<Rightarrow> link \<Rightarrow> (error + rat list) \<times> link"
  d_move :: "pyval \<Rightarrow> pyval \<Rightarrow> pyval \<Rightarrow> bool \<Rightarrow> link \<Rightarrow> (error + unit) \<times> link"
  d_home :: "link \<Rightarrow> (error + unit) \<times> link"

text \<open>
  The interpreter's default recursion limit. The facade's calls of \<open>position\<close> are
  given all of it; the frames their callers already hold are not counted.
\<close>

definition recursion_limit :: nat where
  "recursion_limit = 1000"

definition ms2000 :: "(string \<Rightarrow> rat option) \<Rightarrow> driver" where
  "ms2000 pf =
     \<lparr>d_status = status, d_limits = limits pf, d_position = position pf recursion_limit,
      d_move = move, d_home = home\<rparr>"

text \<open>
  The world of the facade: the link and the clock that \<open>time.perf_counter\<close> reads.
  Only \<open>time.sleep\<close> advances the clock; a driver call takes no time. A pause is also
  written to the link's log, which so keeps the order of commands and pauses.
\<close>

record world =
  dev :: link
  now :: rat

definition on_dev :: "(link \<Rightarrow> 'a \<times> link) \<Rightarrow> world \<Rightarrow> 'a \<times> world" where
  "on_dev f w = (case f (dev w) of (r, p) \<Rightarrow> (r, w\<lparr>dev := p\<rparr>))"

definition sleep :: "rat \<Rightarrow> world \<Rightarrow> world" where
  "sleep d w = w\<lparr>dev := (dev w)\<lparr>log := log (dev w) @ [Slept d]\<rparr>, now := now w + d\<rparr>"

definition perf_counter :: "world \<Rightarrow> rat" where
  "perf_counter w = now w"

text \<open>The class constants, in seconds.\<close>

definition HOME_TIMEOUT :: rat where "HOME_TIMEOUT = 30"
definition MOVE_TIMEOUT :: rat where "MOVE_TIMEOUT = 30"
definition POLLING_PERIOD :: rat where "POLLING_PERIOD = 1 / 20"

datatype axis = X | Y | Z

text \<open>The dictionary \<open>{'x': 0, 'y': 1, 'z': 2}\<close>.\<close>

fun axis_idx :: "axis \<Rightarrow> nat" where
  "axis_idx X = 0"
| "axis_idx Y = 1"
| "axis_idx Z = 2"

record PositionRange =
  range_min :: rat
  range_max :: rat

text \<open>
  Modelled from the spec: \<open>units.PositionRange.within_range\<close> belongs to the host
  framework and is not among the sources; the spec has the target lie within
  \<open>[min, max]\<close>.
\<close>

definition within_range :: "PositionRange \<Rightarrow> rat \<Rightarrow> bool" where
  "within_range r pos = (range_min r \<le> pos \<and> pos \<le> range_max r)"

text \<open>
  An axis object: its axis, the limits given at construction (\<open>_position_limits\<close>),
  the value cached by the \<open>position_limits\<close> property once it has been computed,
  \<open>_prev_position\<close> and \<open>_last_move_timestamp\<close>.
\<close>

record motor =
  axis :: axis
  limits_given :: "PositionRange option"
  limits_cached :: "PositionRange option"
  prev_position :: "rat option"
  last_move_timestamp :: "rat option"

text \<open>What a caller may pass where a \<open>units.Velocity\<close> is expected.\<close>

datatype quantity = Velocity rat | Position rat | Plain pyval

text \<open>A call \<open>move(**{self.axis: v}, relative=r)\<close>.\<close>

fun move_axis :: "driver \<Rightarrow> axis \<Rightarrow> pyval \<Rightarrow> bool \<Rightarrow> link \<Rightarrow> (error + unit) \<times> link" where
  "move_axis drv X v r = d_move drv v VNone VNone r"
| "move_axis drv Y v r = d_move drv VNone v VNone r"
| "move_axis drv Z v r = d_move drv VNone VNone v r"

definition position_limits ::
  "driver \<Rightarrow> motor \<Rightarrow> world \<Rightarrow> (error + PositionRange) \<times> motor \<times> world" where
  "position_limits drv m w =
     (case limits_cached m of
        Some r \<Rightarrow> (Inr r, m, w)
      | None \<Rightarrow>
          (case limits_given m of
             None \<Rightarrow>
               (case on_dev (d_limits drv True True True) w of
                  (Inl e, w1) \<Rightarrow> (Inl e, m, w1)
                | (Inr lims, w1) \<Rightarrow>
                    if axis_idx (axis m) < length lims then
                      (case lims ! axis_idx (axis m) of
                         (lower_tenths_um, upper_tenths_um) \<Rightarrow>
                           let r = \<lparr>range_min = lower_tenths_um / 10000000,
                                    range_max = upper_tenths_um / 10000000\<rparr>
                           in (Inr r, m\<lparr>limits_cached := Some r\<rparr>, w1))
                    else (Inl IndexError, m, w1))
           | Some r \<Rightarrow> (Inr r, m\<lparr>limits_cached := Some r\<rparr>, w)))"

definition motor_position ::
  "driver \<Rightarrow> motor \<Rightarrow> world \<Rightarrow> (error + rat) \<times> motor \<times> world" where
  "motor_position drv m w =
     (case on_dev (d_position drv True True True) w of
        (Inl e, w1) \<Rightarrow> (Inl e, m, w1)
      | (Inr pos_tenths_um, w1) \<Rightarrow>
          if axis_idx (axis m) < length pos_tenths_um then
            (let pos = pos_tenths_um ! axis_idx (axis m) / 10000000
             in (Inr pos, m\<lparr>prev_position := Some pos\<rparr>, w1))
          else (Inl IndexError, m, w1))"

definition moving :: "driver \<Rightarrow> world \<Rightarrow> (error + bool) \<times> world" where
  "moving drv w =
     (case on_dev (d_status drv) w of
        (Inl e, w1) \<Rightarrow> (Inl e, w1)
      | (Inr s, w1) \<Rightarrow> (Inr (\<not> s), w1))"

text \<open>
  The polling loop of the blocking \<open>move_to\<close> and \<open>home\<close>, which differ in the bound
  and in the message only.
\<close>

function wait_while_moving ::
  "driver \<Rightarrow> rat \<Rightarrow> piece list \<Rightarrow> rat \<Rightarrow> world \<Rightarrow> (error + unit) \<times> world" where
  "wait_while_moving drv timeout msg start_time w =
     (case moving drv w of
        (Inl e, w1) \<Rightarrow> (Inl e, w1)
      | (Inr mv, w1) \<Rightarrow>
          if mv then
            (if perf_counter w1 - start_time > timeout then (Inl (TimeoutError msg), w1)
             else wait_while_moving drv timeout msg start_time (sleep POLLING_PERIOD w1))
          else (Inr (), w1))"
  by pat_completeness auto
termination
proof (relation "measure (\<lambda>(drv, timeout, msg, start_time, w).
                   nat (\<lfloor>(timeout - (now w - start_time)) * 20\<rfloor> + 1))", goal_cases)
  case 1
  show ?case by simp
next
  case (2 drv timeout msg start_time w x1 w1 mv)
  define a where "a = (timeout - (now w - start_time)) * 20"
  from 2(1) have w1: "now w1 = now w"
    by (auto simp: moving_def on_dev_def split: prod.splits sum.splits)
  from 2(4) w1 have nonneg: "0 \<le> a"
    by (simp add: perf_counter_def a_def)
  have step: "(timeout - (now (sleep POLLING_PERIOD w1) - start_time)) * 20 = a - 1"
    by (simp add: sleep_def POLLING_PERIOD_def w1 a_def algebra_simps)
  from nonneg have "0 \<le> \<lfloor>a\<rfloor>" by simp
  then have "nat (\<lfloor>a - 1\<rfloor> + 1) < nat (\<lfloor>a\<rfloor> + 1)" by simp
  then show ?case unfolding in_measure prod.case step a_def .
qed

definition move_to ::
  "driver \<Rightarrow> motor \<Rightarrow> rat \<Rightarrow> bool \<Rightarrow> world \<Rightarrow> (error + unit) \<times> motor \<times> world" where
  "move_to drv m pos blocking w =
     (case position_limits drv m w of
        (Inl e, m1, w1) \<Rightarrow> (Inl e, m1, w1)
      | (Inr lims, m1, w1) \<Rightarrow>
          if \<not> within_range lims pos then
            (Inl (ValueError [Txt ''Requested move ('', Val (VFloat pos),
                              Txt '') beyond limits, min: '', Val (VFloat (range_min lims)),
                              Txt '', max: '', Val (VFloat (range_max lims))]), m1, w1)
          else
            let pos_tenths_um = round3 (pos * 10000000) in
            case on_dev (move_axis drv (axis m1) (VFloat pos_tenths_um) False) w1 of
              (Inl e, w2) \<Rightarrow> (Inl e, m1, w2)
            | (Inr u, w2) \<Rightarrow>
                (case (if blocking
                       then wait_while_moving drv MOVE_TIMEOUT
                              [Txt ''Move timed out after '', Val (VFloat MOVE_TIMEOUT)]
                              (perf_counter w2) w2
                       else (Inr (), w2)) of
                   (Inl e, w3) \<Rightarrow> (Inl e, m1, w3)
                 | (Inr u, w3) \<Rightarrow>
                     (Inr (), m1\<lparr>last_move_timestamp := Some (perf_counter w3)\<rparr>, w3)))"

definition move_velocity ::
  "driver \<Rightarrow> motor \<Rightarrow> quantity \<Rightarrow> world \<Rightarrow> (error + unit) \<times> world" where
  "move_velocity drv m velocity w =
     (case velocity of
        Velocity v \<Rightarrow>
          (let direction = (if v > 0 then 1 else - 1);
               large_distance_tenths_um = direction * 10000000
           in on_dev (move_axis drv (axis m) (VInt large_distance_tenths_um) True) w)
      | other \<Rightarrow> (Inl (ValueError [Txt ''velocity must be given in units.Velocity'']), w))"

text \<open>
  \<open>stop\<close>: the position that is read is passed to \<open>move\<close> as it is, in native units.
  The handler catches \<open>RuntimeError\<close> (in Python \<open>RecursionError\<close> is one); every
  other error leaves at once.
\<close>

definition stop_attempt :: "driver \<Rightarrow> motor \<Rightarrow> world \<Rightarrow> (error + unit) \<times> world" where
  "stop_attempt drv m w =
     (case on_dev (d_position drv True True True) w of
        (Inl e, w1) \<Rightarrow> (Inl e, w1)
      | (Inr current_pos_tenths_um, w1) \<Rightarrow>
          if axis_idx (axis m) < length current_pos_tenths_um then
            on_dev (move_axis drv (axis m)
                      (VFloat (current_pos_tenths_um ! axis_idx (axis m))) False) w1
          else (Inl IndexError, w1))"

definition stop :: "driver \<Rightarrow> motor \<Rightarrow> world \<Rightarrow> (error + unit) \<times> world" where
  "stop drv m w =
     (case on_dev (d_position drv True True True) w of
        (Inl e, w1) \<Rightarrow> (Inl e, w1)
      | (Inr current_pos_tenths_um, w1) \<Rightarrow>
          if axis_idx (axis m) < length current_pos_tenths_um then
            (case on_dev (move_axis drv (axis m)
                            (VFloat (current_pos_tenths_um ! axis_idx (axis m))) False) w1 of
               (Inl (RuntimeError msg), w2) \<Rightarrow> stop_attempt drv m (sleep (1 / 10) w2)
             | (Inl RecursionError, w2) \<Rightarrow> stop_attempt drv m (sleep (1 / 10) w2)
             | (Inl e, w2) \<Rightarrow> (Inl e, w2)
             | (Inr u, w2) \<Rightarrow> (Inr (), w2))
          else (Inl IndexError, w1))"

definition motor_home :: "driver \<Rightarrow> bool \<Rightarrow> world \<Rightarrow> (error + unit) \<times> world" where
  "motor_home drv blocking w =
     (case on_dev (d_home drv) w of
        (Inl e, w1) \<Rightarrow> (Inl e, w1)
      | (Inr u, w1) \<Rightarrow>
          if blocking
          then wait_while_moving drv HOME_TIMEOUT
                 [Txt ''Homing timed out after '', Val (VFloat HOME_TIMEOUT)]
                 (perf_counter w1) w1
          else (Inr (), w1))"

definition homed :: "driver \<Rightarrow> motor \<Rightarrow> world \<Rightarrow> (error + bool) \<times> motor \<times> world" where
  "homed drv m w =
     (case motor_position drv m w of
        (Inl e, m1, w1) \<Rightarrow> (Inl e, m1, w1)
      | (Inr current_pos, m1, w1) \<Rightarrow> (Inr (\<bar>current_pos\<bar> < 1), m1, w1))"

text \<open>
  \<open>ASILinearMotor.__init__\<close>. The limits of the configuration arrive as a range
  already (their validation is the host framework's).
\<close>

definition ASILinearMotor_init ::
  "driver \<Rightarrow> axis \<Rightarrow> PositionRange option \<Rightarrow> world \<Rightarrow> (error + motor) \<times> world" where
  "ASILinearMotor_init drv a position_limits_arg w =
     (let m = \<lparr>axis = a, limits_given = position_limits_arg, limits_cached = None,
               prev_position = None, last_move_timestamp = None\<rparr>
      in case motor_position drv m (sleep (1 / 10) w) of
           (Inl e, m1, w1) \<Rightarrow> (Inl e, w1)
         | (Inr p, m1, w1) \<Rightarrow> (Inr m1, w1))"

text \<open>One statement \<open>if not axis.homed: axis.home(blocking=False)\<close> of the constructor.\<close>

definition home_unless_homed :: "driver \<Rightarrow> motor \<Rightarrow> world \<Rightarrow> (error + motor) \<times> world" where
  "home_unless_homed drv m w =
     (case homed drv m w of
        (Inl e, m1, w1) \<Rightarrow> (Inl e, w1)
      | (Inr h, m1, w1) \<Rightarrow>
          if \<not> h then
            (case motor_home drv False w1 of
               (Inl e, w2) \<Rightarrow> (Inl e, w2)
             | (Inr u, w2) \<Rightarrow> (Inr m1, w2))
          else (Inr m1, w1))"

record stage =
  x_axis :: motor
  y_axis :: motor
  z_axis :: motor

text \<open>
  \<open>MS2000Stage.__init__\<close>, from the connected driver on: the three axes, then the
  three homing statements.
\<close>

definition MS2000Stage_init ::
  "driver \<Rightarrow> PositionRange option \<Rightarrow> PositionRange option \<Rightarrow> PositionRange option \<Rightarrow> world
     \<Rightarrow> (error + stage) \<times> world" where
  "MS2000Stage_init drv x_config y_config z_config w =
     (case ASILinearMotor_init drv X x_config w of
        (Inl e, w1) \<Rightarrow> (Inl e, w1)
      | (Inr mx, w1) \<Rightarrow>
     (case ASILinearMotor_init drv Y y_config w1 of
        (Inl e, w2) \<Rightarrow> (Inl e, w2)
      | (Inr my, w2) \<Rightarrow>
     (case ASILinearMotor_init drv Z z_config w2 of
        (Inl e, w3) \<Rightarrow> (Inl e, w3)
      | (Inr mz, w3) \<Rightarrow>
     (case home_unless_homed drv mx w3 of
        (Inl e, w4) \<Rightarrow> (Inl e, w4)
      | (Inr mx', w4) \<Rightarrow>
     (case home_unless_homed drv my w4 of
        (Inl e, w5) \<Rightarrow> (Inl e, w5)
      | (Inr my', w5) \<Rightarrow>
     (case home_unless_homed drv mz w5 of
        (Inl e, w6) \<Rightarrow> (Inl e, w6)
      | (Inr mz', w6) \<Rightarrow> (Inr \<lparr>x_axis = mx', y_axis = my', z_axis = mz'\<rparr>, w6)))))))"

section \<open>Vocabulary of the statements\<close>

text \<open>The letter that \<open>move\<close> writes for the keyword an axis passes.\<close>

fun axis_letter :: "axis \<Rightarrow> string" where
  "axis_letter X = ''X''"
| "axis_letter Y = ''Y''"
| "axis_letter Z = ''Z''"

text \<open>
  The fields of a command: one per coordinate that is not \<open>None\<close>, holding \<open>f\<close> of
  the coordinate.
\<close>

fun fields_of :: "(pyval \<Rightarrow> pyval) \<Rightarrow> (string \<times> pyval) list \<Rightarrow> piece list" where
  "fields_of f [] = []"
| "fields_of f ((a, c) # rest) =
     (if c \<noteq> VNone then [Txt ('' '' @ a @ ''=''), Val (f c)] else []) @ fields_of f rest"

definition WHERE_XYZ :: "piece list" where
  "WHERE_XYZ = [Txt ''WHERE'', Txt '' X'', Txt '' Y'', Txt '' Z'']"

text \<open>The absolute move of one axis to the native value \<open>v\<close>, as \<open>move\<close> writes it.\<close>

definition MOVE_axis :: "axis \<Rightarrow> rat \<Rightarrow> piece list" where
  "MOVE_axis a v = [Txt ''MOVE'', Txt ('' '' @ axis_letter a @ ''=''), Val (VFloat (round3 v))]"

fun is_move_command :: "event \<Rightarrow> bool" where
  "is_move_command (Sent (Txt v # rest)) = (v = ''MOVE'' \<or> v = ''MOVREL'')"
| "is_move_command e = False"

text \<open>A status reply that reports motion.\<close>

definition busy :: "string \<Rightarrow> bool" where
  "busy st = contains ''B'' (strip st)"

text \<open>
  A stub driver for the polling loop: its status is read from the script (\<open>busy\<close>
  means moving, anything else idle), its moves and homing are accepted and logged, its
  position is the origin.
\<close>

definition stub_status :: "link \<Rightarrow> (error + bool) \<times> link" where
  "stub_status p =
     (case replies p of
        [] \<Rightarrow> (Inl VisaIOError, p)
      | r # rs \<Rightarrow>
          (Inr (r \<noteq> ''busy''), p\<lparr>replies := rs, log := log p @ [Sent [Txt ''status()'']]\<rparr>))"

definition stub_driver :: driver where
  "stub_driver =
     \<lparr>d_status = stub_status,
      d_limits = (\<lambda>x y z p. (Inr [], p)),
      d_position = (\<lambda>x y z p. (Inr [0, 0, 0], p)),
      d_move = (\<lambda>x y z r p. (Inr (), p\<lparr>log := log p @ [Sent [Txt ''move()'']]\<rparr>)),
      d_home = (\<lambda>p. (Inr (), p\<lparr>log := log p @ [Sent [Txt ''home()'']]\<rparr>))\<rparr>"

text \<open>The log of \<open>k\<close> polls that read busy, each followed by a pause, and one more poll.\<close>

fun polls :: "nat \<Rightarrow> event list" where
  "polls 0 = [Sent [Txt ''status()'']]"
| "polls (Suc k) = Sent [Txt ''status()''] # Slept (1 / 20) # polls k"

text \<open>
  The quantities of the host framework hold their value in SI base units: this source
  hands \<open>units.Time('50 ms')\<close> to \<open>time.sleep\<close>, which takes seconds, and asks for
  \<open>with_unit("mm/s")\<close> where it wants millimetres. The number of a \<open>units.Position\<close>
  therefore counts metres; these are its two readings in millimetres.
\<close>

definition mm_of_position :: "rat \<Rightarrow> rat" where
  "mm_of_position v = v * 1000"

definition position_of_mm :: "rat \<Rightarrow> rat" where
  "position_of_mm t = t / 1000"

text \<open>The command that the driver's \<open>home\<close> sends: the absolute move of all axes to 0.\<close>

definition HOME_command :: "piece list" where
  "HOME_command = [Txt ''MOVE'', Txt '' X='', Val (VInt 0), Txt '' Y='', Val (VInt 0),
                   Txt '' Z='', Val (VInt 0)]"

declare position.simps [simp del]
declare wait_while_moving.simps [simp del]

section \<open>Basic facts\<close>

lemma query_log: "query i p = (r, p') \<Longrightarrow> log p' = log p @ [Sent i]"
  by (auto simp: query_def split: list.splits)

lemma status_log: "status p = (r, p') \<Longrightarrow> log p' = log p @ [Sent [Txt ''STATUS'']]"
  by (auto simp: status_def split: prod.splits sum.splits dest: query_log)

lemma query_next:
  "replies p = r # rs \<Longrightarrow> query i p = (Inr r, \<lparr>replies = rs, log = log p @ [Sent i]\<rparr>)"
  by (simp add: query_def)

lemma status_next:
  "replies p = r # rs \<Longrightarrow>
     status p = (Inr (\<not> busy r), \<lparr>replies = rs, log = log p @ [Sent [Txt ''STATUS'']]\<rparr>)"
  by (simp add: status_def query_next busy_def)

lemma round_half_even_near: "\<bar>of_int (round_half_even r) - r\<bar> \<le> 1 / 2"
proof -
  have "of_int \<lfloor>r\<rfloor> \<le> r" "r < of_int \<lfloor>r\<rfloor> + 1" by linarith+
  then show ?thesis
    by (auto simp: round_half_even_def Let_def)
qed

lemma round3_near: "\<bar>round3 r - r\<bar> \<le> 1 / 2000"
proof -
  have "\<bar>of_int (round_half_even (r * 1000)) - r * 1000\<bar> \<le> 1 / 2"
    by (rule round_half_even_near)
  then show ?thesis
    by (simp add: round3_def abs_le_iff field_simps)
qed

lemma round_half_even_int: "round_half_even (of_int k) = k"
  by (simp add: round_half_even_def Let_def)

lemma round3_idem: "round3 (round3 r) = round3 r"
  by (simp add: round3_def round_half_even_int)

lemma move_fields_eq:
  "move_fields i fs = Inr i' \<Longrightarrow> i' = i @ fields_of py_round3 fs"
  by (induction fs arbitrary: i) (fastforce split: if_splits)+

lemma speed_fields_eq:
  "speed_fields i fs = Inr i' \<Longrightarrow> i' = i @ fields_of (\<lambda>v. v) fs"
  by (induction fs arbitrary: i) (fastforce split: if_splits)+

lemma move_log:
  assumes "move x y z relative p = (Inr (), p')"
  shows "log p' = log p @ [Sent [Txt ''STATUS''],
           Sent (Txt (if \<not> relative then ''MOVE'' else ''MOVREL'')
                 # fields_of py_round3 [(''X'', x), (''Y'', y), (''Z'', z)])]"
  using assms unfolding move_def
  by (auto split: if_splits sum.splits prod.splits dest!: move_fields_eq status_log query_log)

lemma speed_log:
  assumes "speed x y z p = (Inr (), p')"
  shows "log p' = log p @ [Sent [Txt ''STATUS''],
           Sent (Txt ''SPEED'' # fields_of (\<lambda>v. v) [(''X'', x), (''Y'', y), (''Z'', z)])]"
  using assms unfolding speed_def
  by (auto split: if_splits sum.splits prod.splits dest!: speed_fields_eq status_log query_log)

lemma ms2000_move_axis_idle:
  assumes "replies p = st # ack # rest" and "\<not> busy st" and "is_numeric v"
  shows "move_axis (ms2000 pf) a v rel p =
           (Inr (), \<lparr>replies = rest,
              log = log p @ [Sent [Txt ''STATUS''],
                Sent [Txt (if \<not> rel then ''MOVE'' else ''MOVREL''),
                      Txt ('' '' @ axis_letter a @ ''=''), Val (py_round3 v)]]\<rparr>)"
  using assms
  by (cases a; cases v) (simp_all add: ms2000_def move_def status_next query_next)

lemma ms2000_move_axis_busy:
  assumes "replies p = st # rest" and "busy st" and "is_numeric v"
  shows "move_axis (ms2000 pf) a v rel p =
           (Inl (RuntimeError [Txt ''Device is busy moving!'']),
            \<lparr>replies = rest, log = log p @ [Sent [Txt ''STATUS'']]\<rparr>)"
  using assms
  by (cases a; cases v) (simp_all add: ms2000_def move_def status_next)

lemma position_limits_axis: "position_limits drv m w = (r, m1, w1) \<Longrightarrow> axis m1 = axis m"
  unfolding position_limits_def
  by (auto simp: Let_def split: option.splits prod.splits sum.splits if_splits)

lemma limits_no_move:
  assumes "limits pf x y z p = (r, p')"
  shows "filter is_move_command (log p') = filter is_move_command (log p)"
proof (cases "x \<or> y \<or> z")
  case False
  with assms show ?thesis by (simp add: limits_def)
next
  case True
  obtain r1 p1 where
    q1: "query (Txt ''SETLOW'' # axes_suffix '' X?'' '' Y?'' '' Z?'' x y z) p = (r1, p1)"
    by (cases "query (Txt ''SETLOW'' # axes_suffix '' X?'' '' Y?'' '' Z?'' x y z) p")
  obtain r2 p2 where
    q2: "query (Txt ''SETUP'' # axes_suffix '' X?'' '' Y?'' '' Z?'' x y z) p1 = (r2, p2)"
    by (cases "query (Txt ''SETUP'' # axes_suffix '' X?'' '' Y?'' '' Z?'' x y z) p1")
  have l1: "filter is_move_command (log p1) = filter is_move_command (log p)"
    using query_log [OF q1] by simp
  have l2: "filter is_move_command (log p2) = filter is_move_command (log p)"
    using query_log [OF q2] l1 by simp
  from assms True q1 q2 have "p' = p1 \<or> p' = p2"
    by (auto simp: limits_def split: sum.splits)
  with l1 l2 show ?thesis by auto
qed

lemma position_limits_no_move:
  assumes "position_limits (ms2000 pf) m w = (r, m1, w1)"
  shows "filter is_move_command (log (dev w1)) = filter is_move_command (log (dev w))"
proof (cases "limits_cached m = None \<and> limits_given m = None")
  case False
  with assms have "w1 = w"
    by (auto simp: position_limits_def split: option.splits)
  then show ?thesis by simp
next
  case True
  obtain r0 p0 where l: "limits pf True True True (dev w) = (r0, p0)"
    by (cases "limits pf True True True (dev w)")
  with assms True have "dev w1 = p0"
    by (auto simp: position_limits_def on_dev_def ms2000_def Let_def
             split: sum.splits if_splits prod.splits)
  with limits_no_move [OF l] show ?thesis by simp
qed

lemmas parse_simps = split_def is_space_def dec_float_def strip_def is_digit_def busy_def

lemma recursion_limit_pos: "0 < recursion_limit"
  by (simp add: recursion_limit_def)

lemma position_all_ok:
  assumes "floats pf (tl (split r)) = Inr cs" and "length cs = 3" and "replies p = r # rest"
    and "0 < frames"
  shows "position pf frames True True True p =
           (Inr cs, \<lparr>replies = rest, log = log p @ [Sent WHERE_XYZ]\<rparr>)"
proof -
  from assms(4) obtain n where n: "frames = Suc n" by (cases frames) auto
  from assms(1-3) show ?thesis unfolding n
    by (subst position.simps) (simp add: query_next axes_suffix_def WHERE_XYZ_def)
qed

lemma round3_of_int: "round3 (of_int k) = of_int k"
proof -
  have "round_half_even (of_int k * 1000) = k * 1000"
    using round_half_even_int [of "k * 1000"] by simp
  then show ?thesis by (simp add: round3_def)
qed

lemma round3_numeral: "round3 (numeral n) = numeral n"
  using round3_of_int [of "numeral n"] by simp

lemma stub_moving_busy:
  "replies (dev w) = ''busy'' # rs \<Longrightarrow>
     moving stub_driver w =
       (Inr True, w\<lparr>dev := \<lparr>replies = rs, log = log (dev w) @ [Sent [Txt ''status()'']]\<rparr>\<rparr>)"
  by (simp add: moving_def on_dev_def stub_driver_def stub_status_def)

lemma stub_moving_idle:
  "replies (dev w) = ''idle'' # rs \<Longrightarrow>
     moving stub_driver w =
       (Inr False, w\<lparr>dev := \<lparr>replies = rs, log = log (dev w) @ [Sent [Txt ''status()'']]\<rparr>\<rparr>)"
  by (simp add: moving_def on_dev_def stub_driver_def stub_status_def)

lemma wait_stub_idle:
  assumes "replies (dev w) = replicate k ''busy'' @ ''idle'' # rest"
    and "k = 0 \<or> (now w - s) + of_nat (k - 1) / 20 \<le> T"
  shows "wait_while_moving stub_driver T msg s w =
           (Inr (), w\<lparr>dev := \<lparr>replies = rest, log = log (dev w) @ polls k\<rparr>,
                       now := now w + of_nat k / 20\<rparr>)"
  using assms
proof (induction k arbitrary: w)
  case 0
  then show ?case
    by (subst wait_while_moving.simps) (simp add: stub_moving_idle)
next
  case (Suc k)
  let ?w1 = "w\<lparr>dev := \<lparr>replies = replicate k ''busy'' @ ''idle'' # rest,
                       log = log (dev w) @ [Sent [Txt ''status()'']]\<rparr>\<rparr>"
  let ?w2 = "sleep POLLING_PERIOD ?w1"
  have mv: "moving stub_driver w = (Inr True, ?w1)"
    using Suc.prems(1) by (simp add: stub_moving_busy)
  from Suc.prems(2) have b: "(now w - s) + of_nat k / 20 \<le> T" by simp
  have "(0::rat) \<le> of_nat k / 20" by simp
  with b have le: "now w - s \<le> T" by linarith
  have unf: "wait_while_moving stub_driver T msg s w = wait_while_moving stub_driver T msg s ?w2"
    using le by (subst wait_while_moving.simps) (simp add: mv perf_counter_def)
  have r2: "replies (dev ?w2) = replicate k ''busy'' @ ''idle'' # rest"
    by (simp add: sleep_def)
  have c2: "k = 0 \<or> now ?w2 - s + rat_of_nat (k - 1) / 20 \<le> T"
  proof (cases k)
    case 0 then show ?thesis by simp
  next
    case (Suc j)
    with b show ?thesis
      by (simp add: sleep_def POLLING_PERIOD_def field_simps)
  qed
  have ih: "wait_while_moving stub_driver T msg s ?w2 =
              (Inr (), ?w2\<lparr>dev := \<lparr>replies = rest, log = log (dev ?w2) @ polls k\<rparr>,
                           now := now ?w2 + of_nat k / 20\<rparr>)"
    by (rule Suc.IH [OF r2 c2])
  have fin: "?w2\<lparr>dev := \<lparr>replies = rest, log = log (dev ?w2) @ polls k\<rparr>,
                 now := now ?w2 + of_nat k / 20\<rparr>
             = w\<lparr>dev := \<lparr>replies = rest, log = log (dev w) @ polls (Suc k)\<rparr>,
                  now := now w + of_nat (Suc k) / 20\<rparr>"
    by (simp add: sleep_def POLLING_PERIOD_def field_simps)
  show ?case unfolding unf ih fin ..
qed

lemma wait_stub_timeout:
  assumes "replies (dev w) = replicate (Suc j) ''busy'' @ rest"
    and "T < (now w - s) + of_nat j / 20"
    and "j = 0 \<or> (now w - s) + of_nat (j - 1) / 20 \<le> T"
  shows "wait_while_moving stub_driver T msg s w =
           (Inl (TimeoutError msg),
            w\<lparr>dev := \<lparr>replies = rest, log = log (dev w) @ polls j\<rparr>,
              now := now w + of_nat j / 20\<rparr>)"
  using assms
proof (induction j arbitrary: w)
  case 0
  let ?w1 = "w\<lparr>dev := \<lparr>replies = rest, log = log (dev w) @ [Sent [Txt ''status()'']]\<rparr>\<rparr>"
  have mv: "moving stub_driver w = (Inr True, ?w1)"
    using "0.prems"(1) by (simp add: stub_moving_busy)
  from "0.prems"(2) show ?case
    by (subst wait_while_moving.simps) (simp add: mv perf_counter_def)
next
  case (Suc j)
  let ?w1 = "w\<lparr>dev := \<lparr>replies = replicate (Suc j) ''busy'' @ rest,
                       log = log (dev w) @ [Sent [Txt ''status()'']]\<rparr>\<rparr>"
  let ?w2 = "sleep POLLING_PERIOD ?w1"
  have mv: "moving stub_driver w = (Inr True, ?w1)"
    using Suc.prems(1) by (simp add: stub_moving_busy)
  from Suc.prems(3) have b: "(now w - s) + of_nat j / 20 \<le> T" by simp
  have "(0::rat) \<le> of_nat j / 20" by simp
  with b have le: "now w - s \<le> T" by linarith
  have unf: "wait_while_moving stub_driver T msg s w = wait_while_moving stub_driver T msg s ?w2"
    using le by (subst wait_while_moving.simps) (simp add: mv perf_counter_def)
  have r2: "replies (dev ?w2) = replicate (Suc j) ''busy'' @ rest"
    by (simp add: sleep_def)
  have t2: "T < now ?w2 - s + of_nat j / 20"
    using Suc.prems(2) by (simp add: sleep_def POLLING_PERIOD_def field_simps)
  have c2: "j = 0 \<or> now ?w2 - s + rat_of_nat (j - 1) / 20 \<le> T"
  proof (cases j)
    case 0 then show ?thesis by simp
  next
    case (Suc i)
    with b show ?thesis
      by (simp add: sleep_def POLLING_PERIOD_def field_simps)
  qed
  have ih: "wait_while_moving stub_driver T msg s ?w2 =
              (Inl (TimeoutError msg),
               ?w2\<lparr>dev := \<lparr>replies = rest, log = log (dev ?w2) @ polls j\<rparr>,
                   now := now ?w2 + of_nat j / 20\<rparr>)"
    by (rule Suc.IH [OF r2 t2 c2])
  have fin: "?w2\<lparr>dev := \<lparr>replies = rest, log = log (dev ?w2) @ polls j\<rparr>,
                 now := now ?w2 + of_nat j / 20\<rparr>
             = w\<lparr>dev := \<lparr>replies = rest, log = log (dev w) @ polls (Suc j)\<rparr>,
                  now := now w + of_nat (Suc j) / 20\<rparr>"
    by (simp add: sleep_def POLLING_PERIOD_def field_simps)
  show ?case unfolding unf ih fin ..
qed


lemma polls_count: "length (filter (\<lambda>e. e = Sent [Txt ''status()'']) (polls k)) = Suc k"
  by (induction k) simp_all

lemma stub_move_axis:
  "move_axis stub_driver a v r p = (Inr (), p\<lparr>log := log p @ [Sent [Txt ''move()'']]\<rparr>)"
  by (cases a) (simp_all add: stub_driver_def)

lemma stub_home:
  "d_home stub_driver p = (Inr (), p\<lparr>log := log p @ [Sent [Txt ''home()'']]\<rparr>)"
  by (simp add: stub_driver_def)

lemma axis_idx_lt3: "axis_idx a < 3"
  by (cases a) simp_all

lemma ms2000_position_ok:
  assumes "floats pf (tl (split r)) = Inr cs" and "length cs = 3" and "replies (dev w) = r # rest"
  shows "on_dev (d_position (ms2000 pf) True True True) w =
           (Inr cs, w\<lparr>dev := \<lparr>replies = rest, log = log (dev w) @ [Sent WHERE_XYZ]\<rparr>\<rparr>)"
  using position_all_ok [OF assms(1,2), of "dev w" rest recursion_limit] assms(3)
  by (simp add: on_dev_def ms2000_def recursion_limit_pos)

lemma ms2000_move_axis_idle_no_ack:
  assumes "replies p = [st]" and "\<not> busy st" and "is_numeric v"
  shows "fst (move_axis (ms2000 pf) a v rel p) = Inl VisaIOError"
  using assms
  by (cases a; cases v) (simp_all add: ms2000_def move_def status_next query_def)

lemma stop_attempt_idle:
  assumes "replies (dev w) = r # st # ack # rest"
    and "floats pf (tl (split r)) = Inr cs" and "length cs = 3" and "\<not> busy st"
  shows "stop_attempt (ms2000 pf) m w =
           (Inr (), w\<lparr>dev := \<lparr>replies = rest,
              log = log (dev w) @ [Sent WHERE_XYZ, Sent [Txt ''STATUS''],
                      Sent (MOVE_axis (axis m) (cs ! axis_idx (axis m)))]\<rparr>\<rparr>)"
proof -
  let ?w1 = "w\<lparr>dev := \<lparr>replies = st # ack # rest, log = log (dev w) @ [Sent WHERE_XYZ]\<rparr>\<rparr>"
  have p: "on_dev (d_position (ms2000 pf) True True True) w = (Inr cs, ?w1)"
    using assms by (intro ms2000_position_ok) simp_all
  have mv: "move_axis (ms2000 pf) (axis m) (VFloat (cs ! axis_idx (axis m))) False (dev ?w1) =
              (Inr (), \<lparr>replies = rest,
                 log = log (dev ?w1) @ [Sent [Txt ''STATUS''],
                   Sent (MOVE_axis (axis m) (cs ! axis_idx (axis m)))]\<rparr>)"
    using assms(4)
    by (simp add: ms2000_move_axis_idle [where st = st and ack = ack and rest = rest and rel = False]
                  MOVE_axis_def)
  show ?thesis
    using axis_idx_lt3 [of "axis m"] assms(3) mv
    by (simp add: stop_attempt_def p on_dev_def [of "move_axis _ _ _ _"])
qed

lemma stop_attempt_busy:
  assumes "replies (dev w) = r # st # rest"
    and "floats pf (tl (split r)) = Inr cs" and "length cs = 3" and "busy st"
  shows "stop_attempt (ms2000 pf) m w =
           (Inl (RuntimeError [Txt ''Device is busy moving!'']),
            w\<lparr>dev := \<lparr>replies = rest,
              log = log (dev w) @ [Sent WHERE_XYZ, Sent [Txt ''STATUS'']]\<rparr>\<rparr>)"
proof -
  let ?w1 = "w\<lparr>dev := \<lparr>replies = st # rest, log = log (dev w) @ [Sent WHERE_XYZ]\<rparr>\<rparr>"
  have p: "on_dev (d_position (ms2000 pf) True True True) w = (Inr cs, ?w1)"
    using assms by (intro ms2000_position_ok) simp_all
  have mv: "move_axis (ms2000 pf) (axis m) (VFloat (cs ! axis_idx (axis m))) False (dev ?w1) =
              (Inl (RuntimeError [Txt ''Device is busy moving!'']),
               \<lparr>replies = rest, log = log (dev ?w1) @ [Sent [Txt ''STATUS'']]\<rparr>)"
    using assms(4)
    by (simp add: ms2000_move_axis_busy [where st = st and rest = rest])
  show ?thesis
    using axis_idx_lt3 [of "axis m"] assms(3) mv
    by (simp add: stop_attempt_def p on_dev_def [of "move_axis _ _ _ _"])
qed

lemma stop_attempt_idle_no_ack:
  assumes "replies (dev w) = [r, st]"
    and "floats pf (tl (split r)) = Inr cs" and "length cs = 3" and "\<not> busy st"
  shows "fst (stop_attempt (ms2000 pf) m w) = Inl VisaIOError"
proof -
  let ?w1 = "w\<lparr>dev := \<lparr>replies = [st], log = log (dev w) @ [Sent WHERE_XYZ]\<rparr>\<rparr>"
  have p: "on_dev (d_position (ms2000 pf) True True True) w = (Inr cs, ?w1)"
    using assms by (intro ms2000_position_ok) simp_all
  have mv: "fst (move_axis (ms2000 pf) (axis m) (VFloat (cs ! axis_idx (axis m))) False (dev ?w1))
              = Inl VisaIOError"
    using assms(4) by (intro ms2000_move_axis_idle_no_ack) simp_all
  show ?thesis
    using axis_idx_lt3 [of "axis m"] assms(3) mv
    by (auto simp add: stop_attempt_def p on_dev_def [of "move_axis _ _ _ _"] split: prod.splits)
qed

lemma stop_first_ok:
  assumes "replies (dev w) = r # st # ack # rest"
    and "floats pf (tl (split r)) = Inr cs" and "length cs = 3" and "\<not> busy st"
  shows "stop (ms2000 pf) m w = stop_attempt (ms2000 pf) m w"
proof -
  let ?w1 = "w\<lparr>dev := \<lparr>replies = st # ack # rest, log = log (dev w) @ [Sent WHERE_XYZ]\<rparr>\<rparr>"
  have p: "on_dev (d_position (ms2000 pf) True True True) w = (Inr cs, ?w1)"
    using assms by (intro ms2000_position_ok) simp_all
  have mv: "move_axis (ms2000 pf) (axis m) (VFloat (cs ! axis_idx (axis m))) False (dev ?w1) =
              (Inr (), \<lparr>replies = rest,
                 log = log (dev ?w1) @ [Sent [Txt ''STATUS''],
                   Sent (MOVE_axis (axis m) (cs ! axis_idx (axis m)))]\<rparr>)"
    using assms(4)
    by (simp add: ms2000_move_axis_idle [where st = st and ack = ack and rest = rest and rel = False]
                  MOVE_axis_def)
  show ?thesis
    using axis_idx_lt3 [of "axis m"] assms(3) mv
    by (simp add: stop_def stop_attempt_def p on_dev_def [of "move_axis _ _ _ _"])
qed

lemma stop_first_busy:
  assumes "replies (dev w) = r # st # rest"
    and "floats pf (tl (split r)) = Inr cs" and "length cs = 3" and "busy st"
  shows "stop (ms2000 pf) m w =
           stop_attempt (ms2000 pf) m
             (sleep (1 / 10)
                (w\<lparr>dev := \<lparr>replies = rest,
                    log = log (dev w) @ [Sent WHERE_XYZ, Sent [Txt ''STATUS'']]\<rparr>\<rparr>))"
proof -
  let ?w1 = "w\<lparr>dev := \<lparr>replies = st # rest, log = log (dev w) @ [Sent WHERE_XYZ]\<rparr>\<rparr>"
  have p: "on_dev (d_position (ms2000 pf) True True True) w = (Inr cs, ?w1)"
    using assms by (intro ms2000_position_ok) simp_all
  have mv: "move_axis (ms2000 pf) (axis m) (VFloat (cs ! axis_idx (axis m))) False (dev ?w1) =
              (Inl (RuntimeError [Txt ''Device is busy moving!'']),
               \<lparr>replies = rest, log = log (dev ?w1) @ [Sent [Txt ''STATUS'']]\<rparr>)"
    using assms(4)
    by (simp add: ms2000_move_axis_busy [where st = st and rest = rest])
  show ?thesis
    using axis_idx_lt3 [of "axis m"] assms(3) mv
    by (simp add: stop_def p on_dev_def [of "move_axis _ _ _ _"])
qed






lemma ms2000_home_idle:
  assumes "replies p = st # ack # rest" and "\<not> busy st"
  shows "d_home (ms2000 pf) p =
           (Inr (), \<lparr>replies = rest, log = log p @ [Sent [Txt ''STATUS''], Sent HOME_command]\<rparr>)"
  using assms
  by (simp add: ms2000_def home_def move_def status_next query_next HOME_command_def)

lemma ms2000_home_busy:
  assumes "replies p = st # rest" and "busy st"
  shows "d_home (ms2000 pf) p =
           (Inl (RuntimeError [Txt ''Device is busy moving!'']),
            \<lparr>replies = rest, log = log p @ [Sent [Txt ''STATUS'']]\<rparr>)"
  using assms
  by (simp add: ms2000_def home_def move_def status_next)

lemma ms2000_motor_position:
  assumes "floats pf (tl (split r)) = Inr cs" and "length cs = 3"
    and "replies (dev w) = r # rest"
  shows "motor_position (ms2000 pf) m w =
           (Inr (cs ! axis_idx (axis m) / 10000000),
            m\<lparr>prev_position := Some (cs ! axis_idx (axis m) / 10000000)\<rparr>,
            w\<lparr>dev := \<lparr>replies = rest, log = log (dev w) @ [Sent WHERE_XYZ]\<rparr>\<rparr>)"
  using ms2000_position_ok [OF assms] axis_idx_lt3 [of "axis m"] assms(2)
  by (simp add: motor_position_def Let_def)

lemma home_unless_homed_fails:
  assumes "homed drv m w = (Inr False, m1, w1)" and "d_home drv (dev w1) = (Inl e, p)"
  shows "home_unless_homed drv m w = (Inl e, w1\<lparr>dev := p\<rparr>)"
  using assms by (simp add: home_unless_homed_def motor_home_def on_dev_def)

section \<open>Connection by probing\<close>

text \<open>
  Claim C2. Without a resource name the driver should take the first resource whose
  answer to \<open>WHO\<close> contains \<open>ASI-MS2000\<close> and fail when no answer does. The probing
  loop tests the literal \<open>True\<close> instead of the answer, so a single resource that
  answers with another identity is selected and construction succeeds. (The branch for
  a given resource name does test the answer. When no resource answers at all, the
  message of the intended error reads \<open>idn\<close>, which was never assigned.)
\<close>

theorem MS2000_init_takes_other_device:
  "MS2000_init None [(''ASRL1::INSTR'', Answers ''SOME-OTHER-DEVICE'')] = Inr ''ASRL1::INSTR''
   \<and> \<not> contains ''ASI-MS2000'' ''SOME-OTHER-DEVICE''
   \<and> MS2000_init (Some ''ASRL1::INSTR'') [(''ASRL1::INSTR'', Answers ''SOME-OTHER-DEVICE'')]
       = Inl (ValueError [Txt ''Not an ASI MS2000 stage controller.''])
   \<and> MS2000_init None [(''ASRL1::INSTR'', QueryFails)] = Inl (UnboundLocalError ''idn'')"
  by (simp add: MS2000_init_def probe_condition_def)

section \<open>Setting a limit\<close>

text \<open>
  Claim C5. \<open>setLimit\<close> should refuse a call only when both bounds are \<open>None\<close>. The
  guard tests the truth value of the bounds, not whether they are \<open>None\<close>: a lower
  bound of \<open>0\<close> with no upper bound is refused with the missing-bounds error and
  nothing is sent, whereas a lower bound of \<open>5\<close> is sent.
\<close>

theorem setLimit_zero_lower_refused:
  "setLimit ''X'' (VInt 0) VNone \<lparr>replies = ['':A''], log = []\<rparr>
     = (Inl (ValueError [Txt ''Must specify at least an upper or lower limit'']),
        \<lparr>replies = ['':A''], log = []\<rparr>)
   \<and> setLimit ''X'' (VInt 5) VNone \<lparr>replies = ['':A''], log = []\<rparr>
     = (Inr (), \<lparr>replies = [], log = [Sent [Txt ''SETLOW X='', Val (VInt 5)]]\<rparr>)"
  by (simp add: setLimit_def query_def)

section \<open>Rounding of transmitted values\<close>

text \<open>
  Claim C4, as stated: every numeric value given to \<open>move\<close> and to \<open>speed\<close> is rounded
  to 3 decimal places before it is formatted into the command. \<open>speed\<close> does not
  round: the value \<open>1.23456\<close> is sent as it is, not as \<open>1.235\<close>.
\<close>

theorem speed_unrounded_counterexample:
  "speed (VFloat (123456 / 100000)) VNone VNone \<lparr>replies = [''N'', '':A''], log = []\<rparr>
     = (Inr (), \<lparr>replies = [], log = [Sent [Txt ''STATUS''],
          Sent [Txt ''SPEED'', Txt '' X='', Val (VFloat (123456 / 100000))]]\<rparr>)
   \<and> py_round3 (VFloat (123456 / 100000)) = VFloat (1235 / 1000)
   \<and> VFloat (123456 / 100000) \<noteq> VFloat (1235 / 1000)"
  by code_simp

text \<open>
  Claim C4, amended: a \<open>move\<close> that is accepted has sent, after its status query, the
  command whose fields hold \<open>round(coord, 3)\<close> of each given coordinate; a \<open>speed\<close>
  that is accepted has sent the command whose fields hold each given value as it is.
  \<open>round(r, 3)\<close> of a float is a multiple of \<open>1/1000\<close> at most \<open>1/2000\<close> away from
  \<open>r\<close>.
\<close>

theorem move_rounds_speed_sends_as_given:
  "(move x y z relative p = (Inr (), pm) \<longrightarrow>
      log pm = log p @ [Sent [Txt ''STATUS''],
        Sent (Txt (if \<not> relative then ''MOVE'' else ''MOVREL'')
              # fields_of py_round3 [(''X'', x), (''Y'', y), (''Z'', z)])])
   \<and> (speed x y z p = (Inr (), ps) \<longrightarrow>
      log ps = log p @ [Sent [Txt ''STATUS''],
        Sent (Txt ''SPEED'' # fields_of (\<lambda>v. v) [(''X'', x), (''Y'', y), (''Z'', z)])])
   \<and> (\<exists>k. round3 r = of_int k / 1000) \<and> \<bar>round3 r - r\<bar> \<le> 1 / 2000"
  using move_log speed_log round3_near by (auto simp: round3_def)

theorem move_rounds_speed_sends_as_given_witness:
  "move (VFloat (123456 / 100000)) VNone VNone False \<lparr>replies = [''N'', '':A''], log = []\<rparr>
     = (Inr (), \<lparr>replies = [], log = [Sent [Txt ''STATUS''],
          Sent [Txt ''MOVE'', Txt '' X='', Val (VFloat (1235 / 1000))]]\<rparr>)
   \<and> speed (VFloat (123456 / 100000)) VNone VNone \<lparr>replies = [''N'', '':A''], log = []\<rparr>
     = (Inr (), \<lparr>replies = [], log = [Sent [Txt ''STATUS''],
          Sent [Txt ''SPEED'', Txt '' X='', Val (VFloat (123456 / 100000))]]\<rparr>)
   \<and> (\<exists>k. round3 (123456 / 100000) = of_int k / 1000)
   \<and> \<bar>round3 (123456 / 100000) - 123456 / 100000\<bar> \<le> 1 / 2000"
proof -
  let ?p = "\<lparr>replies = [''N'', '':A''], log = []\<rparr>"
  let ?pm = "\<lparr>replies = [], log = [Sent [Txt ''STATUS''],
          Sent [Txt ''MOVE'', Txt '' X='', Val (VFloat (1235 / 1000))]]\<rparr>"
  let ?ps = "\<lparr>replies = [], log = [Sent [Txt ''STATUS''],
          Sent [Txt ''SPEED'', Txt '' X='', Val (VFloat (123456 / 100000))]]\<rparr>"
  have m: "move (VFloat (123456 / 100000)) VNone VNone False ?p = (Inr (), ?pm)"
    by code_simp
  have s: "speed (VFloat (123456 / 100000)) VNone VNone ?p = (Inr (), ?ps)"
    by code_simp
  from m s
    move_rounds_speed_sends_as_given
      [of "VFloat (123456 / 100000)" VNone VNone False ?p ?pm ?ps "123456 / 100000"]
  show ?thesis by simp
qed

section \<open>The velocity jog\<close>

text \<open>
  Claim C10. \<open>move_velocity\<close> does not refuse a velocity of zero. With the controller
  idle it sends one relative move of the axis, by \<open>10000000\<close> native units when the
  velocity is greater than zero and by \<open>-10000000\<close> for every other velocity, zero
  included.
\<close>

theorem move_velocity_direction:
  assumes "replies (dev w) = st # ack # rest" and "\<not> busy st"
  shows "move_velocity (ms2000 pf) m (Velocity v) w =
           (Inr (), w\<lparr>dev := \<lparr>replies = rest,
              log = log (dev w) @ [Sent [Txt ''STATUS''],
                Sent [Txt ''MOVREL'', Txt ('' '' @ axis_letter (axis m) @ ''=''),
                      Val (VInt (if 0 < v then 10000000 else - 10000000))]]\<rparr>\<rparr>)"
  using assms
  by (simp add: move_velocity_def on_dev_def ms2000_move_axis_idle [where rel = True])

theorem move_velocity_direction_witness:
  "move_velocity (ms2000 dec_float)
     \<lparr>axis = X, limits_given = None, limits_cached = None, prev_position = None,
      last_move_timestamp = None\<rparr>
     (Velocity 0) \<lparr>dev = \<lparr>replies = [''N'', '':A''], log = []\<rparr>, now = 0\<rparr>
   = (Inr (), \<lparr>dev = \<lparr>replies = [],
        log = [Sent [Txt ''STATUS''],
               Sent [Txt ''MOVREL'', Txt '' X='', Val (VInt (- 10000000))]]\<rparr>, now = 0\<rparr>)"
proof -
  have idle: "\<not> busy ''N''" by code_simp
  from move_velocity_direction
         [of "\<lparr>dev = \<lparr>replies = [''N'', '':A''], log = []\<rparr>, now = 0\<rparr>" "''N''" "'':A''" "[]",
          OF _ idle, of dec_float
            "\<lparr>axis = X, limits_given = None, limits_cached = None, prev_position = None,
              last_move_timestamp = None\<rparr>" 0]
  show ?thesis by simp
qed

section \<open>The range check of \<open>move_to\<close>\<close>

text \<open>
  Claim C7. When the axis has limits (given, cached, or read from the controller) and
  the target lies outside them, \<open>move_to\<close> raises the error that reports the target,
  the minimum and the maximum, and the log holds no move command that it did not hold
  before the call.
\<close>

theorem move_to_out_of_range:
  assumes "position_limits (ms2000 pf) m w = (Inr lims, m1, w1)"
    and "\<not> within_range lims t"
  shows "move_to (ms2000 pf) m t blocking w =
           (Inl (ValueError [Txt ''Requested move ('', Val (VFloat t),
                             Txt '') beyond limits, min: '', Val (VFloat (range_min lims)),
                             Txt '', max: '', Val (VFloat (range_max lims))]), m1, w1)
         \<and> filter is_move_command (log (dev w1)) = filter is_move_command (log (dev w))"
  using assms position_limits_no_move [OF assms(1)] by (simp add: move_to_def)

theorem move_to_out_of_range_witness:
  "move_to (ms2000 dec_float)
     \<lparr>axis = X, limits_given = Some \<lparr>range_min = - 5, range_max = 5\<rparr>, limits_cached = None,
      prev_position = None, last_move_timestamp = None\<rparr>
     10 True \<lparr>dev = \<lparr>replies = [''N'', '':A''], log = []\<rparr>, now = 0\<rparr>
   = (Inl (ValueError [Txt ''Requested move ('', Val (VFloat 10),
                       Txt '') beyond limits, min: '', Val (VFloat (- 5)),
                       Txt '', max: '', Val (VFloat 5)]),
      \<lparr>axis = X, limits_given = Some \<lparr>range_min = - 5, range_max = 5\<rparr>,
       limits_cached = Some \<lparr>range_min = - 5, range_max = 5\<rparr>,
       prev_position = None, last_move_timestamp = None\<rparr>,
      \<lparr>dev = \<lparr>replies = [''N'', '':A''], log = []\<rparr>, now = 0\<rparr>)"
proof -
  let ?m = "\<lparr>axis = X, limits_given = Some \<lparr>range_min = - 5, range_max = 5\<rparr>,
             limits_cached = None, prev_position = None, last_move_timestamp = None\<rparr>"
  let ?w = "\<lparr>dev = \<lparr>replies = [''N'', '':A''], log = []\<rparr>, now = 0\<rparr>"
  have l: "position_limits (ms2000 dec_float) ?m ?w =
             (Inr \<lparr>range_min = - 5, range_max = 5\<rparr>,
              ?m\<lparr>limits_cached := Some \<lparr>range_min = - 5, range_max = 5\<rparr>\<rparr>, ?w)"
    by (simp add: position_limits_def)
  have out: "\<not> within_range \<lparr>range_min = - 5, range_max = 5\<rparr> 10"
    by (simp add: within_range_def)
  from move_to_out_of_range [OF l out, of True] show ?thesis by simp
qed

section \<open>Blocking until the axis is idle\<close>

text \<open>
  Claim C9. Blocking \<open>move_to\<close> and \<open>home\<close> return at the first poll that reads
  idle and raise their timeout error when no poll within the bound does. Against the
  stub driver, with limits that admit the target: if the status reads busy \<open>k\<close> times
  (\<open>k\<close> at most 601, the last poll that 30 seconds of pauses of 50 ms allow) and then
  idle, both return after exactly \<open>k + 1\<close> polls and \<open>k\<close> pauses; if it reads busy 602
  times, both raise \<open>TimeoutError\<close> at the 602nd poll. Busy twice and then idle makes
  3 polls.
\<close>

theorem blocking_returns_when_idle:
  assumes "limits_given m = Some lims" and "limits_cached m = None" and "within_range lims t"
  shows
    "(k \<le> 601 \<and> replies (dev w) = replicate k ''busy'' @ ''idle'' # rest \<longrightarrow>
        move_to stub_driver m t True w =
          (Inr (),
           m\<lparr>limits_cached := Some lims,
             last_move_timestamp := Some (now w + of_nat k / 20)\<rparr>,
           w\<lparr>dev := \<lparr>replies = rest,
                       log = log (dev w) @ Sent [Txt ''move()''] # polls k\<rparr>,
             now := now w + of_nat k / 20\<rparr>)
        \<and> motor_home stub_driver True w =
          (Inr (),
           w\<lparr>dev := \<lparr>replies = rest,
                       log = log (dev w) @ Sent [Txt ''home()''] # polls k\<rparr>,
             now := now w + of_nat k / 20\<rparr>))
     \<and> (replies (dev w) = replicate 602 ''busy'' @ rest \<longrightarrow>
        move_to stub_driver m t True w =
          (Inl (TimeoutError [Txt ''Move timed out after '', Val (VFloat 30)]),
           m\<lparr>limits_cached := Some lims\<rparr>,
           w\<lparr>dev := \<lparr>replies = rest,
                       log = log (dev w) @ Sent [Txt ''move()''] # polls 601\<rparr>,
             now := now w + 601 / 20\<rparr>)
        \<and> motor_home stub_driver True w =
          (Inl (TimeoutError [Txt ''Homing timed out after '', Val (VFloat 30)]),
           w\<lparr>dev := \<lparr>replies = rest,
                       log = log (dev w) @ Sent [Txt ''home()''] # polls 601\<rparr>,
             now := now w + 601 / 20\<rparr>))
     \<and> length (filter (\<lambda>e. e = Sent [Txt ''status()'']) (polls k)) = Suc k"
proof (intro conjI impI)
  show "length (filter (\<lambda>e. e = Sent [Txt ''status()'']) (polls k)) = Suc k"
    by (rule polls_count)
next
  assume a: "k \<le> 601 \<and> replies (dev w) = replicate k ''busy'' @ ''idle'' # rest"
  have bound: "k = 0 \<or> (0::rat) + of_nat (k - 1) / 20 \<le> 30"
  proof (cases k)
    case 0 then show ?thesis by simp
  next
    case (Suc j)
    with a have "j \<le> 600" by simp
    then have "(of_nat j :: rat) \<le> 600" by (metis of_nat_le_iff of_nat_numeral)
    with Suc show ?thesis by simp
  qed
  { fix e
    let ?w2 = "w\<lparr>dev := (dev w)\<lparr>log := log (dev w) @ [Sent e]\<rparr>\<rparr>"
    have "wait_while_moving stub_driver 30 msg (now ?w2) ?w2 =
            (Inr (), ?w2\<lparr>dev := \<lparr>replies = rest, log = log (dev ?w2) @ polls k\<rparr>,
                         now := now ?w2 + of_nat k / 20\<rparr>)" for msg
      using a bound by (intro wait_stub_idle) simp_all
    then have "wait_while_moving stub_driver 30 msg (now w) ?w2 =
            (Inr (), w\<lparr>dev := \<lparr>replies = rest, log = log (dev w) @ Sent e # polls k\<rparr>,
                       now := now w + of_nat k / 20\<rparr>)" for msg
      by simp }
  note wait = this
  show "move_to stub_driver m t True w =
          (Inr (),
           m\<lparr>limits_cached := Some lims,
             last_move_timestamp := Some (now w + of_nat k / 20)\<rparr>,
           w\<lparr>dev := \<lparr>replies = rest,
                       log = log (dev w) @ Sent [Txt ''move()''] # polls k\<rparr>,
             now := now w + of_nat k / 20\<rparr>)"
    using assms
    by (simp add: move_to_def position_limits_def Let_def on_dev_def stub_move_axis
                  MOVE_TIMEOUT_def perf_counter_def wait)
  show "motor_home stub_driver True w =
          (Inr (),
           w\<lparr>dev := \<lparr>replies = rest,
                       log = log (dev w) @ Sent [Txt ''home()''] # polls k\<rparr>,
             now := now w + of_nat k / 20\<rparr>)"
    by (simp add: motor_home_def on_dev_def stub_home HOME_TIMEOUT_def perf_counter_def wait)
next
  assume a: "replies (dev w) = replicate 602 ''busy'' @ rest"
  { fix e
    let ?w2 = "w\<lparr>dev := (dev w)\<lparr>log := log (dev w) @ [Sent e]\<rparr>\<rparr>"
    have "wait_while_moving stub_driver 30 msg (now ?w2) ?w2 =
            (Inl (TimeoutError msg),
             ?w2\<lparr>dev := \<lparr>replies = rest, log = log (dev ?w2) @ polls 601\<rparr>,
                 now := now ?w2 + of_nat 601 / 20\<rparr>)" for msg
      using a by (intro wait_stub_timeout) simp_all
    then have "wait_while_moving stub_driver 30 msg (now w) ?w2 =
            (Inl (TimeoutError msg),
             w\<lparr>dev := \<lparr>replies = rest, log = log (dev w) @ Sent e # polls 601\<rparr>,
               now := now w + 601 / 20\<rparr>)" for msg
      by simp }
  note wait = this
  show "move_to stub_driver m t True w =
          (Inl (TimeoutError [Txt ''Move timed out after '', Val (VFloat 30)]),
           m\<lparr>limits_cached := Some lims\<rparr>,
           w\<lparr>dev := \<lparr>replies = rest,
                       log = log (dev w) @ Sent [Txt ''move()''] # polls 601\<rparr>,
             now := now w + 601 / 20\<rparr>)"
    using assms
    by (simp add: move_to_def position_limits_def Let_def on_dev_def stub_move_axis
                  MOVE_TIMEOUT_def perf_counter_def wait)
  show "motor_home stub_driver True w =
          (Inl (TimeoutError [Txt ''Homing timed out after '', Val (VFloat 30)]),
           w\<lparr>dev := \<lparr>replies = rest,
                       log = log (dev w) @ Sent [Txt ''home()''] # polls 601\<rparr>,
             now := now w + 601 / 20\<rparr>)"
    by (simp add: motor_home_def on_dev_def stub_home HOME_TIMEOUT_def perf_counter_def wait)
qed

theorem blocking_returns_when_idle_witness:
  "move_to stub_driver
     \<lparr>axis = X, limits_given = Some \<lparr>range_min = - 5, range_max = 5\<rparr>, limits_cached = None,
      prev_position = None, last_move_timestamp = None\<rparr>
     2 True \<lparr>dev = \<lparr>replies = [''busy'', ''busy'', ''idle''], log = []\<rparr>, now = 0\<rparr>
   = (Inr (),
      \<lparr>axis = X, limits_given = Some \<lparr>range_min = - 5, range_max = 5\<rparr>,
       limits_cached = Some \<lparr>range_min = - 5, range_max = 5\<rparr>,
       prev_position = None, last_move_timestamp = Some (1 / 10)\<rparr>,
      \<lparr>dev = \<lparr>replies = [],
         log = [Sent [Txt ''move()''],
                Sent [Txt ''status()''], Slept (1 / 20),
                Sent [Txt ''status()''], Slept (1 / 20),
                Sent [Txt ''status()'']]\<rparr>, now = 1 / 10\<rparr>)
   \<and> length (filter (\<lambda>e. e = Sent [Txt ''status()'']) (polls 2)) = 3"
proof -
  let ?l = "\<lparr>range_min = - 5, range_max = 5\<rparr>"
  let ?m = "\<lparr>axis = X, limits_given = Some ?l, limits_cached = None,
             prev_position = None, last_move_timestamp = None\<rparr>"
  let ?w = "\<lparr>dev = \<lparr>replies = [''busy'', ''busy'', ''idle''], log = []\<rparr>, now = 0\<rparr>"
  have h1: "limits_given ?m = Some ?l" by simp
  have h2: "limits_cached ?m = None" by simp
  have h3: "within_range ?l 2" by (simp add: within_range_def)
  note t = blocking_returns_when_idle [OF h1 h2 h3, where k = 2 and w = ?w and rest = "[]"]
  from t show ?thesis by (simp add: numeral_2_eq_2)
qed

section \<open>Stopping\<close>

text \<open>
  Claim C8. \<open>stop\<close> reads the position and sends an absolute move of its axis to it.
  When that first move is accepted, nothing else happens: no pause, no second attempt.
  When it is refused because the controller is busy, \<open>stop\<close> pauses for 0.1 s, reads
  the position again and sends one move to the position just read; the busy error
  reaches the caller exactly when this second move is refused too, and nothing further
  is sent.
\<close>

theorem stop_retries_once:
  assumes "replies (dev w) = r1 # st1 # rest"
    and "floats pf (tl (split r1)) = Inr c1" and "length c1 = 3"
  shows
    "(\<not> busy st1 \<longrightarrow>
        (\<forall>ack rest1. rest = ack # rest1 \<longrightarrow>
           stop (ms2000 pf) m w =
             (Inr (), w\<lparr>dev := \<lparr>replies = rest1,
                log = log (dev w) @ [Sent WHERE_XYZ, Sent [Txt ''STATUS''],
                        Sent (MOVE_axis (axis m) (c1 ! axis_idx (axis m)))]\<rparr>\<rparr>)))
     \<and> (busy st1 \<longrightarrow>
        (\<forall>r2 st2 rest2 c2.
           rest = r2 # st2 # rest2 \<and> floats pf (tl (split r2)) = Inr c2 \<and> length c2 = 3 \<longrightarrow>
             (busy st2 \<longrightarrow>
                stop (ms2000 pf) m w =
                  (Inl (RuntimeError [Txt ''Device is busy moving!'']),
                   w\<lparr>dev := \<lparr>replies = rest2,
                      log = log (dev w) @ [Sent WHERE_XYZ, Sent [Txt ''STATUS''], Slept (1 / 10),
                              Sent WHERE_XYZ, Sent [Txt ''STATUS'']]\<rparr>,
                     now := now w + 1 / 10\<rparr>))
           \<and> (\<not> busy st2 \<longrightarrow>
                (\<forall>ack rest3. rest2 = ack # rest3 \<longrightarrow>
                   stop (ms2000 pf) m w =
                     (Inr (),
                      w\<lparr>dev := \<lparr>replies = rest3,
                         log = log (dev w) @ [Sent WHERE_XYZ, Sent [Txt ''STATUS''], Slept (1 / 10),
                                 Sent WHERE_XYZ, Sent [Txt ''STATUS''],
                                 Sent (MOVE_axis (axis m) (c2 ! axis_idx (axis m)))]\<rparr>,
                        now := now w + 1 / 10\<rparr>)))
           \<and> ((\<exists>msg. fst (stop (ms2000 pf) m w) = Inl (RuntimeError msg)) \<longleftrightarrow> busy st2)))"
proof (intro conjI impI allI)
  fix ack rest1
  assume "\<not> busy st1" and "rest = ack # rest1"
  with assms show "stop (ms2000 pf) m w =
             (Inr (), w\<lparr>dev := \<lparr>replies = rest1,
                log = log (dev w) @ [Sent WHERE_XYZ, Sent [Txt ''STATUS''],
                        Sent (MOVE_axis (axis m) (c1 ! axis_idx (axis m)))]\<rparr>\<rparr>)"
    by (simp add: stop_first_ok [where cs = c1] stop_attempt_idle [where cs = c1])
next
  fix r2 st2 rest2 c2
  assume b1: "busy st1"
    and h: "rest = r2 # st2 # rest2 \<and> floats pf (tl (split r2)) = Inr c2 \<and> length c2 = 3"
  let ?w2 = "sleep (1 / 10)
               (w\<lparr>dev := \<lparr>replies = rest,
                   log = log (dev w) @ [Sent WHERE_XYZ, Sent [Txt ''STATUS'']]\<rparr>\<rparr>)"
  have first: "stop (ms2000 pf) m w = stop_attempt (ms2000 pf) m ?w2"
    using assms b1 by (intro stop_first_busy [where cs = c1]) simp_all
  have r2: "replies (dev ?w2) = r2 # st2 # rest2"
    using h by (simp add: sleep_def)
  have busy2: "stop (ms2000 pf) m w =
                  (Inl (RuntimeError [Txt ''Device is busy moving!'']),
                   w\<lparr>dev := \<lparr>replies = rest2,
                      log = log (dev w) @ [Sent WHERE_XYZ, Sent [Txt ''STATUS''], Slept (1 / 10),
                              Sent WHERE_XYZ, Sent [Txt ''STATUS'']]\<rparr>,
                     now := now w + 1 / 10\<rparr>)" if "busy st2"
    using stop_attempt_busy [OF r2, of pf c2 m] h that
    by (simp add: first sleep_def)
  have idle2: "stop (ms2000 pf) m w =
                     (Inr (),
                      w\<lparr>dev := \<lparr>replies = rest3,
                         log = log (dev w) @ [Sent WHERE_XYZ, Sent [Txt ''STATUS''], Slept (1 / 10),
                                 Sent WHERE_XYZ, Sent [Txt ''STATUS''],
                                 Sent (MOVE_axis (axis m) (c2 ! axis_idx (axis m)))]\<rparr>,
                        now := now w + 1 / 10\<rparr>)"
    if "\<not> busy st2" and "rest2 = ack # rest3" for ack rest3
    using stop_attempt_idle [of ?w2 r2 st2 ack rest3 pf c2 m] r2 h that
    by (simp add: first sleep_def)
  show "busy st2 \<Longrightarrow> stop (ms2000 pf) m w =
                  (Inl (RuntimeError [Txt ''Device is busy moving!'']),
                   w\<lparr>dev := \<lparr>replies = rest2,
                      log = log (dev w) @ [Sent WHERE_XYZ, Sent [Txt ''STATUS''], Slept (1 / 10),
                              Sent WHERE_XYZ, Sent [Txt ''STATUS'']]\<rparr>,
                     now := now w + 1 / 10\<rparr>)"
    by (rule busy2)
  show "\<And>ack rest3. \<not> busy st2 \<Longrightarrow> rest2 = ack # rest3 \<Longrightarrow> stop (ms2000 pf) m w =
                     (Inr (),
                      w\<lparr>dev := \<lparr>replies = rest3,
                         log = log (dev w) @ [Sent WHERE_XYZ, Sent [Txt ''STATUS''], Slept (1 / 10),
                                 Sent WHERE_XYZ, Sent [Txt ''STATUS''],
                                 Sent (MOVE_axis (axis m) (c2 ! axis_idx (axis m)))]\<rparr>,
                        now := now w + 1 / 10\<rparr>)"
    by (rule idle2)
  show "(\<exists>msg. fst (stop (ms2000 pf) m w) = Inl (RuntimeError msg)) \<longleftrightarrow> busy st2"
  proof
    assume e: "\<exists>msg. fst (stop (ms2000 pf) m w) = Inl (RuntimeError msg)"
    show "busy st2"
    proof (rule ccontr)
      assume nb: "\<not> busy st2"
      show False
      proof (cases rest2)
        case Nil
        have "fst (stop_attempt (ms2000 pf) m ?w2) = Inl VisaIOError"
          using h nb Nil by (intro stop_attempt_idle_no_ack [where cs = c2]) (auto simp: sleep_def)
        with e first show False by simp
      next
        case (Cons ack rest3)
        from idle2 [OF nb Cons] e show False by simp
      qed
    qed
  next
    assume "busy st2"
    from busy2 [OF this] show "\<exists>msg. fst (stop (ms2000 pf) m w) = Inl (RuntimeError msg)"
      by simp
  qed
qed

theorem stop_retries_once_witness:
  "stop (ms2000 dec_float)
     \<lparr>axis = X, limits_given = None, limits_cached = None, prev_position = None,
      last_move_timestamp = None\<rparr>
     \<lparr>dev = \<lparr>replies = ['':A 10 20 30'', ''B'', '':A 11 20 30'', ''N'', '':A''], log = []\<rparr>,
      now = 0\<rparr>
   = (Inr (),
      \<lparr>dev = \<lparr>replies = [],
         log = [Sent WHERE_XYZ, Sent [Txt ''STATUS''], Slept (1 / 10),
                Sent WHERE_XYZ, Sent [Txt ''STATUS''],
                Sent [Txt ''MOVE'', Txt '' X='', Val (VFloat 11)]]\<rparr>,
       now = 1 / 10\<rparr>)"
proof -
  let ?m = "\<lparr>axis = X, limits_given = None, limits_cached = None, prev_position = None,
             last_move_timestamp = None\<rparr>"
  let ?w = "\<lparr>dev = \<lparr>replies = ['':A 10 20 30'', ''B'', '':A 11 20 30'', ''N'', '':A''],
                    log = []\<rparr>, now = 0\<rparr>"
  have f1: "floats dec_float (tl (split '':A 10 20 30'')) = Inr [10, 20, 30]"
    by (simp add: parse_simps)
  have f2: "floats dec_float (tl (split '':A 11 20 30'')) = Inr [11, 20, 30]"
    by (simp add: parse_simps)
  have b1: "busy ''B''" by (simp add: parse_simps)
  have nb: "\<not> busy ''N''" by (simp add: parse_simps)
  have r: "replies (dev ?w) = '':A 10 20 30'' # ''B'' # ['':A 11 20 30'', ''N'', '':A'']"
    by simp
  have l: "length [10, 20, 30 :: rat] = 3" by simp
  note t = stop_retries_once [OF r f1 l, of ?m, THEN conjunct2, rule_format, OF b1,
             of "'':A 11 20 30''" "''N''" "['':A'']" "[11, 20, 30]"]
  from t f2 nb show ?thesis
    by (simp add: MOVE_axis_def round3_numeral)
qed

section \<open>Re-querying the position\<close>




section \<open>The conversion between native and engineering values\<close>

text \<open>
  Claim C1. The factor between native increments and millimetres is \<open>10000\<close> in both
  directions. The position read holds the native value of its axis divided by
  \<open>10e6\<close>, a number of metres, which is the native value divided by \<open>10000\<close> in
  millimetres (and becomes the last known position). \<open>move_to\<close>, given a target of
  \<open>t\<close> millimetres within the limits, the controller idle, sends the absolute move of
  the axis to \<open>round(t * 10000, 3)\<close>.
\<close>

theorem conversion_factor_ten_thousand_per_mm:
  "(d_position drv True True True (dev w) = (Inr ps, p') \<and> axis_idx (axis m) < length ps \<longrightarrow>
      motor_position drv m w =
        (Inr (ps ! axis_idx (axis m) / 10000000),
         m\<lparr>prev_position := Some (ps ! axis_idx (axis m) / 10000000)\<rparr>, w\<lparr>dev := p'\<rparr>)
      \<and> mm_of_position (ps ! axis_idx (axis m) / 10000000) = ps ! axis_idx (axis m) / 10000)
   \<and> (position_limits (ms2000 pf) m v = (Inr lims, m1, v1)
        \<and> within_range lims (position_of_mm t)
        \<and> replies (dev v1) = st # ack # rest \<and> \<not> busy st \<longrightarrow>
      move_to (ms2000 pf) m (position_of_mm t) False v =
        (Inr (), m1\<lparr>last_move_timestamp := Some (now v1)\<rparr>,
         v1\<lparr>dev := \<lparr>replies = rest,
                     log = log (dev v1) @ [Sent [Txt ''STATUS''],
                             Sent (MOVE_axis (axis m) (t * 10000))]\<rparr>\<rparr>))
   \<and> mm_of_position (position_of_mm t) = t"
proof (intro conjI impI)
  assume "d_position drv True True True (dev w) = (Inr ps, p') \<and> axis_idx (axis m) < length ps"
  then show "motor_position drv m w =
        (Inr (ps ! axis_idx (axis m) / 10000000),
         m\<lparr>prev_position := Some (ps ! axis_idx (axis m) / 10000000)\<rparr>, w\<lparr>dev := p'\<rparr>)"
    by (simp add: motor_position_def on_dev_def Let_def)
next
  show "mm_of_position (ps ! axis_idx (axis m) / 10000000) = ps ! axis_idx (axis m) / 10000"
    by (simp add: mm_of_position_def)
next
  assume a: "position_limits (ms2000 pf) m v = (Inr lims, m1, v1)
        \<and> within_range lims (position_of_mm t)
        \<and> replies (dev v1) = st # ack # rest \<and> \<not> busy st"
  then have ax: "axis m1 = axis m" by (auto dest: position_limits_axis)
  have scale: "position_of_mm t * 10000000 = t * 10000"
    by (simp add: position_of_mm_def)
  from a have mv:
    "move_axis (ms2000 pf) (axis m) (VFloat (round3 (t * 10000))) False (dev v1) =
       (Inr (), \<lparr>replies = rest,
          log = log (dev v1) @ [Sent [Txt ''STATUS''],
                  Sent (MOVE_axis (axis m) (t * 10000))]\<rparr>)"
    by (simp add: ms2000_move_axis_idle [where rel = False] MOVE_axis_def round3_idem)
  from a show "move_to (ms2000 pf) m (position_of_mm t) False v =
        (Inr (), m1\<lparr>last_move_timestamp := Some (now v1)\<rparr>,
         v1\<lparr>dev := \<lparr>replies = rest,
                     log = log (dev v1) @ [Sent [Txt ''STATUS''],
                             Sent (MOVE_axis (axis m) (t * 10000))]\<rparr>\<rparr>)"
    by (simp add: move_to_def Let_def ax on_dev_def scale mv perf_counter_def)
next
  show "mm_of_position (position_of_mm t) = t"
    by (simp add: mm_of_position_def position_of_mm_def)
qed

theorem conversion_factor_ten_thousand_per_mm_witness:
  "motor_position (ms2000 dec_float)
     \<lparr>axis = Y, limits_given = Some \<lparr>range_min = - 5, range_max = 5\<rparr>, limits_cached = None,
      prev_position = None, last_move_timestamp = None\<rparr>
     \<lparr>dev = \<lparr>replies = ['':A 0 25000000 0''], log = []\<rparr>, now = 0\<rparr>
   = (Inr (5 / 2),
      \<lparr>axis = Y, limits_given = Some \<lparr>range_min = - 5, range_max = 5\<rparr>, limits_cached = None,
       prev_position = Some (5 / 2), last_move_timestamp = None\<rparr>,
      \<lparr>dev = \<lparr>replies = [], log = [Sent WHERE_XYZ]\<rparr>, now = 0\<rparr>)
   \<and> mm_of_position (5 / 2) = 25000000 / 10000
   \<and> move_to (ms2000 dec_float)
     \<lparr>axis = Y, limits_given = Some \<lparr>range_min = - 5, range_max = 5\<rparr>, limits_cached = None,
      prev_position = None, last_move_timestamp = None\<rparr>
     (position_of_mm 2500) False \<lparr>dev = \<lparr>replies = [''N'', '':A''], log = []\<rparr>, now = 0\<rparr>
   = (Inr (),
      \<lparr>axis = Y, limits_given = Some \<lparr>range_min = - 5, range_max = 5\<rparr>,
       limits_cached = Some \<lparr>range_min = - 5, range_max = 5\<rparr>,
       prev_position = None, last_move_timestamp = Some 0\<rparr>,
      \<lparr>dev = \<lparr>replies = [],
         log = [Sent [Txt ''STATUS''],
                Sent [Txt ''MOVE'', Txt '' Y='', Val (VFloat (2500 * 10000))]]\<rparr>, now = 0\<rparr>)"
proof -
  let ?m = "\<lparr>axis = Y, limits_given = Some \<lparr>range_min = - 5, range_max = 5\<rparr>,
             limits_cached = None, prev_position = None, last_move_timestamp = None\<rparr>"
  let ?w = "\<lparr>dev = \<lparr>replies = ['':A 0 25000000 0''], log = []\<rparr>, now = 0\<rparr>"
  let ?v = "\<lparr>dev = \<lparr>replies = [''N'', '':A''], log = []\<rparr>, now = 0\<rparr>"
  have f: "floats dec_float (tl (split '':A 0 25000000 0'')) = Inr [0, 25000000, 0]"
    by (simp add: parse_simps)
  have p: "d_position (ms2000 dec_float) True True True (dev ?w)
             = (Inr [0, 25000000, 0], \<lparr>replies = [], log = [Sent WHERE_XYZ]\<rparr>)"
    using position_all_ok [OF f, of "dev ?w" "[]" recursion_limit]
    by (simp add: ms2000_def recursion_limit_pos)
  have l: "position_limits (ms2000 dec_float) ?m ?v =
             (Inr \<lparr>range_min = - 5, range_max = 5\<rparr>,
              ?m\<lparr>limits_cached := Some \<lparr>range_min = - 5, range_max = 5\<rparr>\<rparr>, ?v)"
    by (simp add: position_limits_def)
  have inside: "within_range \<lparr>range_min = - 5, range_max = 5\<rparr> (position_of_mm 2500)"
    by (simp add: within_range_def position_of_mm_def)
  have idle: "\<not> busy ''N''" by (simp add: parse_simps)
  note t = conversion_factor_ten_thousand_per_mm
             [where drv = "ms2000 dec_float" and w = ?w and ps = "[0, 25000000, 0]"
                and p' = "\<lparr>replies = [], log = [Sent WHERE_XYZ]\<rparr>" and m = ?m
                and pf = dec_float and v = ?v and lims = "\<lparr>range_min = - 5, range_max = 5\<rparr>"
                and ?m1.0 = "?m\<lparr>limits_cached := Some \<lparr>range_min = - 5, range_max = 5\<rparr>\<rparr>"
                and ?v1.0 = ?v and t = 2500 and st = "''N''" and ack = "'':A''"
                and rest = "[]"]
  from t p l inside idle show ?thesis
    by (simp add: MOVE_axis_def round3_numeral mm_of_position_def)
qed

section \<open>Homing at construction\<close>

text \<open>
  Claim C6, as stated: an error of the homing that the constructor starts never leaves
  the constructor. The constructor has no handler around its homing statements: with
  the X axis read at \<open>20000000\<close> native units (out of tolerance) and the controller
  busy, the homing move is refused and the constructor raises that \<open>RuntimeError\<close>.
\<close>

theorem construction_raises_busy_counterexample:
  "MS2000Stage_init (ms2000 dec_float) None None None
     \<lparr>dev = \<lparr>replies = ['':A 20000000 0 0'', '':A 20000000 0 0'', '':A 20000000 0 0'',
                       '':A 20000000 0 0'', ''B''], log = []\<rparr>, now = 0\<rparr>
   = (Inl (RuntimeError [Txt ''Device is busy moving!'']),
      \<lparr>dev = \<lparr>replies = [],
         log = [Slept (1 / 10), Sent WHERE_XYZ, Slept (1 / 10), Sent WHERE_XYZ,
                Slept (1 / 10), Sent WHERE_XYZ, Sent WHERE_XYZ, Sent [Txt ''STATUS'']]\<rparr>,
       now = 3 / 10\<rparr>)"
proof -
  have f: "floats dec_float (tl (split '':A 20000000 0 0'')) = Inr [20000000, 0, 0]"
    by (simp add: parse_simps)
  have pos: "motor_position (ms2000 dec_float) m
               \<lparr>dev = \<lparr>replies = '':A 20000000 0 0'' # rest, log = l\<rparr>, now = t\<rparr>
             = (Inr ([20000000, 0, 0] ! axis_idx (axis m) / 10000000),
                m\<lparr>prev_position := Some ([20000000, 0, 0] ! axis_idx (axis m) / 10000000)\<rparr>,
                \<lparr>dev = \<lparr>replies = rest, log = l @ [Sent WHERE_XYZ]\<rparr>, now = t\<rparr>)"
    for m rest l t
    using ms2000_motor_position
            [OF f, of "\<lparr>dev = \<lparr>replies = '':A 20000000 0 0'' # rest, log = l\<rparr>, now = t\<rparr>"
               rest m]
    by simp
  have b: "busy ''B''" by (simp add: parse_simps)
  have hm: "d_home (ms2000 dec_float) \<lparr>replies = [''B''], log = l\<rparr>
              = (Inl (RuntimeError [Txt ''Device is busy moving!'']),
                 \<lparr>replies = [], log = l @ [Sent [Txt ''STATUS'']]\<rparr>)" for l
    using b by (simp add: ms2000_home_busy)
  show ?thesis
    by (simp add: MS2000Stage_init_def ASILinearMotor_init_def on_dev_def
                  sleep_def home_unless_homed_def homed_def motor_home_def Let_def pos hm)
qed

text \<open>
  Claim C6, amended: an error of the homing started by the constructor leaves the
  constructor, whatever the driver. Once the three axes are constructed: if an axis is
  read out of tolerance and the driver's \<open>home\<close> fails with an error while the homing
  statements of the axes before it have completed, the constructor raises that error,
  in the state in which \<open>home\<close> left the link; and the constructor completes only if
  each of the three homing statements has completed. On the real driver, with the
  homing of X accepted and that of Y refused as busy, the constructor raises the busy
  error.
\<close>

theorem construction_propagates_homing_error:
  assumes "ASILinearMotor_init drv X x_config w = (Inr mx, w1)"
    and "ASILinearMotor_init drv Y y_config w1 = (Inr my, w2)"
    and "ASILinearMotor_init drv Z z_config w2 = (Inr mz, w3)"
  shows
    "(homed drv mx w3 = (Inr False, mxr, wx) \<and> d_home drv (dev wx) = (Inl e, px) \<longrightarrow>
        MS2000Stage_init drv x_config y_config z_config w = (Inl e, wx\<lparr>dev := px\<rparr>))
     \<and> (home_unless_homed drv mx w3 = (Inr mxh, wh)
          \<and> homed drv my wh = (Inr False, myr, wy) \<and> d_home drv (dev wy) = (Inl e, py) \<longrightarrow>
        MS2000Stage_init drv x_config y_config z_config w = (Inl e, wy\<lparr>dev := py\<rparr>))
     \<and> (home_unless_homed drv mx w3 = (Inr mxh, wh)
          \<and> home_unless_homed drv my wh = (Inr myh, wk)
          \<and> homed drv mz wk = (Inr False, mzr, wz) \<and> d_home drv (dev wz) = (Inl e, pz) \<longrightarrow>
        MS2000Stage_init drv x_config y_config z_config w = (Inl e, wz\<lparr>dev := pz\<rparr>))
     \<and> (MS2000Stage_init drv x_config y_config z_config w = (Inr s, w') \<longrightarrow>
          (\<exists>v4 v5. home_unless_homed drv mx w3 = (Inr (x_axis s), v4)
                 \<and> home_unless_homed drv my v4 = (Inr (y_axis s), v5)
                 \<and> home_unless_homed drv mz v5 = (Inr (z_axis s), w')))"
proof (intro conjI impI)
  assume "homed drv mx w3 = (Inr False, mxr, wx) \<and> d_home drv (dev wx) = (Inl e, px)"
  then have "home_unless_homed drv mx w3 = (Inl e, wx\<lparr>dev := px\<rparr>)"
    by (auto intro: home_unless_homed_fails)
  with assms show "MS2000Stage_init drv x_config y_config z_config w = (Inl e, wx\<lparr>dev := px\<rparr>)"
    by (simp add: MS2000Stage_init_def)
next
  assume a: "home_unless_homed drv mx w3 = (Inr mxh, wh)
          \<and> homed drv my wh = (Inr False, myr, wy) \<and> d_home drv (dev wy) = (Inl e, py)"
  then have "home_unless_homed drv my wh = (Inl e, wy\<lparr>dev := py\<rparr>)"
    by (auto intro: home_unless_homed_fails)
  with assms a show "MS2000Stage_init drv x_config y_config z_config w = (Inl e, wy\<lparr>dev := py\<rparr>)"
    by (simp add: MS2000Stage_init_def)
next
  assume a: "home_unless_homed drv mx w3 = (Inr mxh, wh)
          \<and> home_unless_homed drv my wh = (Inr myh, wk)
          \<and> homed drv mz wk = (Inr False, mzr, wz) \<and> d_home drv (dev wz) = (Inl e, pz)"
  then have "home_unless_homed drv mz wk = (Inl e, wz\<lparr>dev := pz\<rparr>)"
    by (auto intro: home_unless_homed_fails)
  with assms a show "MS2000Stage_init drv x_config y_config z_config w = (Inl e, wz\<lparr>dev := pz\<rparr>)"
    by (simp add: MS2000Stage_init_def)
next
  assume "MS2000Stage_init drv x_config y_config z_config w = (Inr s, w')"
  with assms show "\<exists>v4 v5. home_unless_homed drv mx w3 = (Inr (x_axis s), v4)
                 \<and> home_unless_homed drv my v4 = (Inr (y_axis s), v5)
                 \<and> home_unless_homed drv mz v5 = (Inr (z_axis s), w')"
    by (auto simp: MS2000Stage_init_def split: prod.splits sum.splits)
qed

theorem construction_propagates_homing_error_witness:
  "MS2000Stage_init (ms2000 dec_float) None None None
     \<lparr>dev = \<lparr>replies = ['':A 20000000 20000000 0'', '':A 20000000 20000000 0'',
                       '':A 20000000 20000000 0'', '':A 20000000 20000000 0'', ''N'', '':A'',
                       '':A 20000000 20000000 0'', ''B''], log = []\<rparr>, now = 0\<rparr>
   = (Inl (RuntimeError [Txt ''Device is busy moving!'']),
      \<lparr>dev = \<lparr>replies = [],
         log = [Slept (1 / 10), Sent WHERE_XYZ, Slept (1 / 10), Sent WHERE_XYZ,
                Slept (1 / 10), Sent WHERE_XYZ,
                Sent WHERE_XYZ, Sent [Txt ''STATUS''], Sent HOME_command,
                Sent WHERE_XYZ, Sent [Txt ''STATUS'']]\<rparr>,
       now = 3 / 10\<rparr>)"
proof -
  let ?d = "ms2000 dec_float"
  let ?P = "'':A 20000000 20000000 0''"
  let ?i = "[Slept (1 / 10), Sent WHERE_XYZ, Slept (1 / 10), Sent WHERE_XYZ,
             Slept (1 / 10), Sent WHERE_XYZ]"
  let ?w = "\<lparr>dev = \<lparr>replies = [?P, ?P, ?P, ?P, ''N'', '':A'', ?P, ''B''], log = []\<rparr>, now = 0\<rparr>"
  let ?w1 = "\<lparr>dev = \<lparr>replies = [?P, ?P, ?P, ''N'', '':A'', ?P, ''B''],
                     log = [Slept (1 / 10), Sent WHERE_XYZ]\<rparr>, now = 1 / 10\<rparr>"
  let ?w2 = "\<lparr>dev = \<lparr>replies = [?P, ?P, ''N'', '':A'', ?P, ''B''],
                     log = [Slept (1 / 10), Sent WHERE_XYZ, Slept (1 / 10), Sent WHERE_XYZ]\<rparr>,
              now = 2 / 10\<rparr>"
  let ?w3 = "\<lparr>dev = \<lparr>replies = [?P, ''N'', '':A'', ?P, ''B''], log = ?i\<rparr>, now = 3 / 10\<rparr>"
  let ?w4 = "\<lparr>dev = \<lparr>replies = [?P, ''B''],
                     log = ?i @ [Sent WHERE_XYZ, Sent [Txt ''STATUS''], Sent HOME_command]\<rparr>,
              now = 3 / 10\<rparr>"
  let ?wy = "\<lparr>dev = \<lparr>replies = [''B''],
                     log = ?i @ [Sent WHERE_XYZ, Sent [Txt ''STATUS''], Sent HOME_command,
                                 Sent WHERE_XYZ]\<rparr>,
              now = 3 / 10\<rparr>"
  let ?py = "\<lparr>replies = [],
               log = ?i @ [Sent WHERE_XYZ, Sent [Txt ''STATUS''], Sent HOME_command,
                           Sent WHERE_XYZ, Sent [Txt ''STATUS'']]\<rparr>"
  let ?mx = "\<lparr>axis = X, limits_given = None, limits_cached = None, prev_position = Some 2,
              last_move_timestamp = None\<rparr>"
  let ?my = "\<lparr>axis = Y, limits_given = None, limits_cached = None, prev_position = Some 2,
              last_move_timestamp = None\<rparr>"
  let ?mz = "\<lparr>axis = Z, limits_given = None, limits_cached = None, prev_position = Some 0,
              last_move_timestamp = None\<rparr>"
  have f: "floats dec_float (tl (split ?P)) = Inr [20000000, 20000000, 0]"
    by (simp add: parse_simps)
  have pos: "motor_position ?d m \<lparr>dev = \<lparr>replies = ?P # rest, log = l\<rparr>, now = t\<rparr>
             = (Inr ([20000000, 20000000, 0] ! axis_idx (axis m) / 10000000),
                m\<lparr>prev_position :=
                    Some ([20000000, 20000000, 0] ! axis_idx (axis m) / 10000000)\<rparr>,
                \<lparr>dev = \<lparr>replies = rest, log = l @ [Sent WHERE_XYZ]\<rparr>, now = t\<rparr>)"
    for m rest l t
    using ms2000_motor_position
            [OF f, of "\<lparr>dev = \<lparr>replies = ?P # rest, log = l\<rparr>, now = t\<rparr>" rest m]
    by simp
  have idle: "\<not> busy ''N''" and b: "busy ''B''" by (simp_all add: parse_simps)
  have i1: "ASILinearMotor_init ?d X None ?w = (Inr ?mx, ?w1)"
    by (simp add: ASILinearMotor_init_def sleep_def Let_def pos)
  have i2: "ASILinearMotor_init ?d Y None ?w1 = (Inr ?my, ?w2)"
    by (simp add: ASILinearMotor_init_def sleep_def Let_def pos)
  have i3: "ASILinearMotor_init ?d Z None ?w2 = (Inr ?mz, ?w3)"
    by (simp add: ASILinearMotor_init_def sleep_def Let_def pos)
  have hmx: "d_home ?d \<lparr>replies = [''N'', '':A'', ?P, ''B''], log = ?i @ [Sent WHERE_XYZ]\<rparr>
               = (Inr (), \<lparr>replies = [?P, ''B''],
                    log = ?i @ [Sent WHERE_XYZ, Sent [Txt ''STATUS''], Sent HOME_command]\<rparr>)"
    using ms2000_home_idle
            [of "\<lparr>replies = [''N'', '':A'', ?P, ''B''], log = ?i @ [Sent WHERE_XYZ]\<rparr>"
                "''N''" "'':A''" "[?P, ''B'']" dec_float] idle
    by simp
  have hx: "home_unless_homed ?d ?mx ?w3 = (Inr ?mx, ?w4)"
    using hmx by (simp add: home_unless_homed_def homed_def motor_home_def on_dev_def pos)
  have hy: "homed ?d ?my ?w4 = (Inr False, ?my, ?wy)"
    by (simp add: homed_def pos)
  have dh: "d_home ?d (dev ?wy) = (Inl (RuntimeError [Txt ''Device is busy moving!'']), ?py)"
    using ms2000_home_busy [of "dev ?wy" "''B''" "[]" dec_float] b by simp
  note t = construction_propagates_homing_error
             [where mxh = ?mx and wh = ?w4 and myr = ?my and wy = ?wy
                and e = "RuntimeError [Txt ''Device is busy moving!'']" and py = ?py,
              OF i1 i2 i3, THEN conjunct2, THEN conjunct1]
  from t hx hy dh show ?thesis by simp
qed

end
